theory Spec2Isabelle
  imports Main "HOL-Library.Sublist"
begin

section \<open>Values of the Go runtime used by the logger\<close>

text \<open>
  Go strings are byte sequences, modelled as \<open>string\<close>. Go's \<open>int\<close> is modelled as
  \<open>int\<close>: counters start from a file size and grow by message lengths, far from the
  64-bit bound. An \<open>error\<close> value is \<open>EOF\<close> (\<open>io.EOF\<close>), an error handed back by the
  operating system, or one built by \<open>errors.New\<close>/\<open>fmt.Errorf\<close>; \<open>nil\<close> is \<open>None\<close> of
  \<open>error option\<close>.
\<close>

type_synonym path = string

datatype error = EOF | OSError string | Errorf string

fun error_string :: "error \<Rightarrow> string" where
  "error_string EOF = ''EOF''"
| "error_string (OSError m) = m"
| "error_string (Errorf m) = m"

text \<open>
  A call returns, panics (a nil dereference, a send on a closed channel, an index out of
  range) or blocks on a channel.
\<close>

datatype 'a outcome = Panic string | Blocks | Returns 'a

text \<open>\<open>time.Time\<close> in local time, as the calendar fields the logger reads.\<close>

record gotime =
  year :: nat
  month :: nat
  day :: nat
  hour :: nat
  minute :: nat
  second :: nat

definition digit :: "nat \<Rightarrow> char" where
  "digit n = ''0123456789'' ! (n mod 10)"

fun itoa :: "nat \<Rightarrow> string" where
  "itoa n = (if n < 10 then [digit n] else itoa (n div 10) @ [digit (n mod 10)])"

declare itoa.simps [simp del]

text \<open>Zero padding to a minimal width: \<open>%03d\<close>, and the fields of \<open>Time.Format\<close>.\<close>

definition pad :: "nat \<Rightarrow> nat \<Rightarrow> string" where
  "pad width n = replicate (width - length (itoa n)) CHR ''0'' @ itoa n"

text \<open>\<open>when.Format("2006-01-02")\<close> and \<open>when.Format("2006-01-02 15:04:05")\<close>.\<close>

definition format_date :: "gotime \<Rightarrow> string" where
  "format_date t = pad 4 (year t) @ ''-'' @ pad 2 (month t) @ ''-'' @ pad 2 (day t)"

definition format_datetime :: "gotime \<Rightarrow> string" where
  "format_datetime t =
     format_date t @ '' '' @ pad 2 (hour t) @ '':'' @ pad 2 (minute t) @ '':'' @ pad 2 (second t)"

text \<open>\<open>formatTimeHeader\<close> (logger.go): the header and the day of the month.\<close>

definition formatTimeHeader :: "gotime \<Rightarrow> string \<times> int" where
  "formatTimeHeader when = (format_datetime when @ '' '', int (day when))"

text \<open>
  \<open>strconv.ParseInt(s, 8, 64)\<close>: an optional sign, then one or more octal digits, the
  value within 64 bits; anything else is an error.
\<close>

fun index_of :: "char \<Rightarrow> string \<Rightarrow> nat \<Rightarrow> nat option" where
  "index_of c [] i = None"
| "index_of c (x # xs) i = (if c = x then Some i else index_of c xs (Suc i))"

definition octal_digit :: "char \<Rightarrow> nat option" where
  "octal_digit c = index_of c ''01234567'' 0"

fun octal_value :: "nat \<Rightarrow> string \<Rightarrow> nat option" where
  "octal_value acc [] = Some acc"
| "octal_value acc (c # cs) =
     (case octal_digit c of None \<Rightarrow> None | Some d \<Rightarrow> octal_value (8 * acc + d) cs)"

definition parse_unsigned :: "string \<Rightarrow> nat option" where
  "parse_unsigned s = (if s = [] then None else octal_value 0 s)"

definition ParseInt8 :: "string \<Rightarrow> error + int" where
  "ParseInt8 s =
     (let neg = (s \<noteq> [] \<and> hd s = CHR ''-'');
          body = (if s \<noteq> [] \<and> (hd s = CHR ''-'' \<or> hd s = CHR ''+'') then tl s else s)
      in case parse_unsigned body of
           None \<Rightarrow> Inl (Errorf (''strconv.ParseInt: parsing '' @ s @ '': invalid syntax''))
         | Some n \<Rightarrow>
             if (\<not> neg \<and> n \<ge> 2 ^ 63) \<or> (neg \<and> n > 2 ^ 63)
             then Inl (Errorf (''strconv.ParseInt: parsing '' @ s @ '': value out of range''))
             else Inr (if neg then - int n else int n))"

section \<open>The operating system as the logger sees it\<close>

text \<open>
  Files are inodes reached through directory entries; an open file is a descriptor on an
  inode with a read offset, so that a rename does not disturb what a descriptor writes to.
  Every system call is appended to \<open>trace\<close>. The call number \<open>length trace\<close> indexes
  \<open>faults\<close>: where it gives a message, that call fails with the operating-system
  error of that message and changes nothing, which
  stands for every failure the environment can cause (permissions, a full disk, a
  directory that went away). Calls also fail for the reasons visible in the state: a
  missing path, a closed descriptor. \<open>now\<close> is what \<open>time.Now().Local()\<close> returns and
  \<open>stderr\<close> collects what the process prints to its diagnostic stream.
\<close>

record inode =
  content :: string
  mode :: int

record fdesc =
  ino :: nat
  offset :: nat

datatype syscall =
    SLstat path
  | SOpenFile path int
  | SOpen path
  | SChmod path int
  | SRename path path
  | SClose nat
  | SFstat nat
  | SWrite nat string
  | SRead nat nat
  | SSync nat
  | SFailed syscall

record os_state =
  dir :: "path \<Rightarrow> nat option"
  inodes :: "nat \<Rightarrow> inode"
  fdt :: "nat \<Rightarrow> fdesc option"
  next_fd :: nat
  next_ino :: nat
  trace :: "syscall list"
  faults :: "nat \<Rightarrow> string option"
  now :: gotime
  stderr :: "string list"

definition fault :: "os_state \<Rightarrow> error option" where
  "fault os = map_option OSError (faults os (length (trace os)))"

definition called :: "syscall \<Rightarrow> os_state \<Rightarrow> os_state" where
  "called c os = os\<lparr>trace := trace os @ [c]\<rparr>"

text \<open>
  The byte strings appended by \<open>Write\<close> along a trace, in the order of the calls. A
  write that the environment refuses is recorded as \<open>SFailed\<close> and appends nothing.
\<close>

fun payload :: "syscall \<Rightarrow> string list" where
  "payload (SWrite fd b) = [b]"
| "payload c = []"

definition writes :: "syscall list \<Rightarrow> string list" where
  "writes cs = concat (map payload cs)"

definition ENOENT :: "string \<Rightarrow> path \<Rightarrow> error" where
  "ENOENT opn p = OSError (opn @ '' '' @ p @ '': no such file or directory'')"

definition ErrClosed :: "string \<Rightarrow> error" where
  "ErrClosed opn = OSError (opn @ '': file already closed'')"

definition ErrInvalid :: error where
  "ErrInvalid = OSError ''invalid argument''"

text \<open>\<open>os.Lstat\<close>, of which the logger only reads the error.\<close>

definition os_Lstat :: "path \<Rightarrow> os_state \<Rightarrow> error option \<times> os_state" where
  "os_Lstat p os =
     (case fault os of
        Some e \<Rightarrow> (Some e, called (SLstat p) os)
      | None \<Rightarrow> (case dir os p of
                   None \<Rightarrow> (Some (ENOENT ''lstat'' p), called (SLstat p) os)
                 | Some i \<Rightarrow> (None, called (SLstat p) os)))"

text \<open>
  \<open>os.OpenFile(p, O_WRONLY|O_APPEND|O_CREATE, perm)\<close>: opens the file at \<open>p\<close>, creating
  it empty with mode \<open>perm\<close> when there is none.
\<close>

definition os_OpenFile :: "path \<Rightarrow> int \<Rightarrow> os_state \<Rightarrow> (error + nat) \<times> os_state" where
  "os_OpenFile p perm os =
     (case fault os of
        Some e \<Rightarrow> (Inl e, called (SOpenFile p perm) os)
      | None \<Rightarrow>
         (case dir os p of
            Some i \<Rightarrow>
              (Inr (next_fd os),
               called (SOpenFile p perm)
                 (os\<lparr>fdt := (fdt os)(next_fd os := Some \<lparr>ino = i, offset = 0\<rparr>),
                     next_fd := next_fd os + 1\<rparr>))
          | None \<Rightarrow>
              (Inr (next_fd os),
               called (SOpenFile p perm)
                 (os\<lparr>dir := (dir os)(p := Some (next_ino os)),
                     inodes := (inodes os)(next_ino os := \<lparr>content = [], mode = perm\<rparr>),
                     fdt := (fdt os)(next_fd os := Some \<lparr>ino = next_ino os, offset = 0\<rparr>),
                     next_fd := next_fd os + 1,
                     next_ino := next_ino os + 1\<rparr>))))"

text \<open>\<open>os.Open(p)\<close>: read only, the file must exist.\<close>

definition os_Open :: "path \<Rightarrow> os_state \<Rightarrow> (error + nat) \<times> os_state" where
  "os_Open p os =
     (case fault os of
        Some e \<Rightarrow> (Inl e, called (SOpen p) os)
      | None \<Rightarrow>
         (case dir os p of
            None \<Rightarrow> (Inl (ENOENT ''open'' p), called (SOpen p) os)
          | Some i \<Rightarrow>
              (Inr (next_fd os),
               called (SOpen p)
                 (os\<lparr>fdt := (fdt os)(next_fd os := Some \<lparr>ino = i, offset = 0\<rparr>),
                     next_fd := next_fd os + 1\<rparr>))))"

definition os_Chmod :: "path \<Rightarrow> int \<Rightarrow> os_state \<Rightarrow> error option \<times> os_state" where
  "os_Chmod p perm os =
     (case fault os of
        Some e \<Rightarrow> (Some e, called (SChmod p perm) os)
      | None \<Rightarrow>
         (case dir os p of
            None \<Rightarrow> (Some (ENOENT ''chmod'' p), called (SChmod p perm) os)
          | Some i \<Rightarrow>
              (None, called (SChmod p perm)
                 (os\<lparr>inodes := (inodes os)(i := (inodes os i)\<lparr>mode := perm\<rparr>)\<rparr>))))"

text \<open>\<open>os.Rename\<close>: the entry moves, replacing whatever the new name held.\<close>

definition os_Rename :: "path \<Rightarrow> path \<Rightarrow> os_state \<Rightarrow> error option \<times> os_state" where
  "os_Rename old new os =
     (case fault os of
        Some e \<Rightarrow> (Some e, called (SRename old new) os)
      | None \<Rightarrow>
         (case dir os old of
            None \<Rightarrow> (Some (ENOENT ''rename'' old), called (SRename old new) os)
          | Some i \<Rightarrow>
              (None, called (SRename old new)
                 (os\<lparr>dir := ((dir os)(old := None))(new := Some i)\<rparr>))))"

text \<open>
  The methods of \<open>*os.File\<close>. The receiver is \<open>nat option\<close>: \<open>None\<close> is the nil
  pointer, on which every method returns \<open>ErrInvalid\<close> without a system call.
\<close>

definition file_Close :: "nat option \<Rightarrow> os_state \<Rightarrow> error option \<times> os_state" where
  "file_Close f os =
     (case f of
        None \<Rightarrow> (Some ErrInvalid, os)
      | Some fd \<Rightarrow>
         (case fdt os fd of
            None \<Rightarrow> (Some (ErrClosed ''close''), os)
          | Some d \<Rightarrow> (fault os, called (SClose fd) (os\<lparr>fdt := (fdt os)(fd := None)\<rparr>))))"

text \<open>\<open>f.Stat()\<close>, of which the logger reads the size.\<close>

definition file_Stat :: "nat option \<Rightarrow> os_state \<Rightarrow> (error + nat) \<times> os_state" where
  "file_Stat f os =
     (case f of
        None \<Rightarrow> (Inl ErrInvalid, os)
      | Some fd \<Rightarrow>
         (case fdt os fd of
            None \<Rightarrow> (Inl (ErrClosed ''stat''), os)
          | Some d \<Rightarrow>
             (case fault os of
                Some e \<Rightarrow> (Inl e, called (SFstat fd) os)
              | None \<Rightarrow> (Inr (length (content (inodes os (ino d)))), called (SFstat fd) os))))"

text \<open>
  \<open>f.Write(b)\<close> on a descriptor opened with \<open>O_APPEND\<close>: the bytes go to the end of the
  file. A failing write leaves the file as it was and is recorded as failed.
\<close>

definition file_Write :: "nat option \<Rightarrow> string \<Rightarrow> os_state \<Rightarrow> error option \<times> os_state" where
  "file_Write f b os =
     (case f of
        None \<Rightarrow> (Some ErrInvalid, os)
      | Some fd \<Rightarrow>
         (case fdt os fd of
            None \<Rightarrow> (Some (ErrClosed ''write''), os)
          | Some d \<Rightarrow>
             (case fault os of
                Some e \<Rightarrow> (Some e, called (SFailed (SWrite fd b)) os)
              | None \<Rightarrow>
                 (None, called (SWrite fd b)
                    (os\<lparr>inodes := (inodes os)
                          (ino d := (inodes os (ino d))
                             \<lparr>content := content (inodes os (ino d)) @ b\<rparr>)\<rparr>)))))"

text \<open>
  \<open>f.Read(buf)\<close> with \<open>len(buf) = n\<close>: the next bytes, at most \<open>n\<close>, and \<open>io.EOF\<close> with
  no bytes at the end of the file.
\<close>

definition file_Read :: "nat \<Rightarrow> nat \<Rightarrow> os_state \<Rightarrow> (string \<times> error option) \<times> os_state" where
  "file_Read fd n os =
     (case fdt os fd of
        None \<Rightarrow> (([], Some (ErrClosed ''read'')), os)
      | Some d \<Rightarrow>
         (case fault os of
            Some e \<Rightarrow> (([], Some e), called (SRead fd n) os)
          | None \<Rightarrow>
             (let rest = drop (offset d) (content (inodes os (ino d)))
              in if rest = [] \<or> n = 0 then (([], Some EOF), called (SRead fd n) os)
                 else ((take n rest, None),
                       called (SRead fd n)
                         (os\<lparr>fdt := (fdt os)(fd := Some (d\<lparr>offset := offset d + length (take n rest)\<rparr>))\<rparr>)))))"

definition file_Sync :: "nat option \<Rightarrow> os_state \<Rightarrow> error option \<times> os_state" where
  "file_Sync f os =
     (case f of
        None \<Rightarrow> (Some ErrInvalid, os)
      | Some fd \<Rightarrow>
         (case fdt os fd of
            None \<Rightarrow> (Some (ErrClosed ''sync''), os)
          | Some d \<Rightarrow> (fault os, called (SSync fd) os)))"

definition eprint :: "string \<Rightarrow> os_state \<Rightarrow> os_state" where
  "eprint s os = os\<lparr>stderr := stderr os @ [s]\<rparr>"

section \<open>The rotating file writer\<close>

text \<open>
  The struct \<open>fileLogWriter\<close>. \<open>fileWriter\<close> is the \<open>*os.File\<close>, nil before the first
  \<open>startLogger\<close>. The lock is left out: the functions below are the bodies run under it,
  one call at a time. The two background tasks that \<open>initFd\<close> starts (\<open>dailyRotate\<close>,
  \<open>taskDeleteLog\<close>) sleep on timers and are not part of the write path; the field
  \<open>filePath\<close>, read by \<open>taskDeleteLog\<close> only, is left out with them.
\<close>

record fileLogWriter =
  Filename :: string
  fileWriter :: "nat option"
  Day :: int
  MaxLines :: int
  maxLinesCurLines :: int
  MaxSize :: int
  maxSizeCurSize :: int
  Daily :: bool
  dailyOpenDate :: int
  dailyOpenTime :: gotime
  Rotate :: bool
  Level :: int
  Perm :: string
  RotatePerm :: string
  fileNameOnly :: string
  suffix :: string

definition newline :: char where
  "newline = CHR 0x0A"

definition FileMode :: "int \<Rightarrow> int" where
  "FileMode perm = perm mod 2 ^ 32"

text \<open>\<open>needRotate\<close>: the parameter \<open>size\<close> (here \<open>sz\<close>) is received and not read; \<open>d\<close> is the parameter \<open>day\<close>.\<close>

definition needRotate :: "fileLogWriter \<Rightarrow> int \<Rightarrow> int \<Rightarrow> bool" where
  "needRotate w sz d =
     ((MaxLines w > 0 \<and> maxLinesCurLines w \<ge> MaxLines w) \<or>
      (MaxSize w > 0 \<and> maxSizeCurSize w \<ge> MaxSize w) \<or>
      (Daily w \<and> d \<noteq> dailyOpenDate w \<and> maxLinesCurLines w > 0))"

text \<open>\<open>createLogFile\<close>: the result of the \<open>Chmod\<close> is dropped.\<close>

definition createLogFile :: "fileLogWriter \<Rightarrow> os_state \<Rightarrow> (error + nat) \<times> os_state" where
  "createLogFile w os =
     (case ParseInt8 (Perm w) of
        Inl e \<Rightarrow> (Inl e, os)
      | Inr perm \<Rightarrow>
         (case os_OpenFile (Filename w) (FileMode perm) os of
            (Inl e, os1) \<Rightarrow> (Inl e, os1)
          | (Inr fd, os1) \<Rightarrow> (Inr fd, snd (os_Chmod (Filename w) (FileMode perm) os1))))"

text \<open>
  The loop of \<open>lines\<close>: read 32768 bytes at a time, add the newlines of each chunk, stop
  at \<open>io.EOF\<close> or at the first other error.
\<close>

definition count_newlines :: "string \<Rightarrow> int" where
  "count_newlines b = int (length (filter (\<lambda>c. c = newline) b))"

function lines_loop :: "nat \<Rightarrow> int \<Rightarrow> os_state \<Rightarrow> (int \<times> error option) \<times> os_state" where
  "lines_loop fd count os =
     (case file_Read fd 32768 os of
        ((b, err), os1) \<Rightarrow>
          if err \<noteq> None \<and> err \<noteq> Some EOF then ((count, err), os1)
          else if err = Some EOF then ((count + count_newlines b, None), os1)
          else lines_loop fd (count + count_newlines b) os1)"
  by pat_completeness auto
termination
  by (relation "measure (\<lambda>(fd, count, os).
        case fdt os fd of None \<Rightarrow> 0
        | Some d \<Rightarrow> length (content (inodes os (ino d))) - offset d)")
     (auto simp: file_Read_def called_def Let_def split: option.splits if_splits)

declare lines_loop.simps [simp del]

definition lines :: "fileLogWriter \<Rightarrow> os_state \<Rightarrow> (int \<times> error option) \<times> os_state" where
  "lines w os =
     (case os_Open (Filename w) os of
        (Inl e, os1) \<Rightarrow> ((0, Some e), os1)
      | (Inr fd, os1) \<Rightarrow>
         (case lines_loop fd 0 os1 of
            (r, os2) \<Rightarrow> (r, snd (file_Close (Some fd) os2))))"

definition initFd :: "fileLogWriter \<Rightarrow> os_state \<Rightarrow> error option \<times> fileLogWriter \<times> os_state" where
  "initFd w os =
     (case file_Stat (fileWriter w) os of
        (Inl e, os1) \<Rightarrow>
          (Some (Errorf (''get stat err: '' @ error_string e @ [newline])), w, os1)
      | (Inr sz, os1) \<Rightarrow>
          (let w1 = w\<lparr>maxSizeCurSize := int sz,
                      dailyOpenTime := now os1,
                      dailyOpenDate := int (day (now os1)),
                      maxLinesCurLines := 0\<rparr>
           in if sz > 0 \<and> MaxLines w1 > 0
              then (case lines w1 os1 of
                      ((count, Some e), os2) \<Rightarrow> (Some e, w1, os2)
                    | ((count, None), os2) \<Rightarrow> (None, w1\<lparr>maxLinesCurLines := count\<rparr>, os2))
              else (None, w1, os1)))"

definition startLogger :: "fileLogWriter \<Rightarrow> os_state \<Rightarrow> error option \<times> fileLogWriter \<times> os_state" where
  "startLogger w os =
     (case createLogFile w os of
        (Inl e, os1) \<Rightarrow> (Some e, w, os1)
      | (Inr fd, os1) \<Rightarrow>
          initFd (w\<lparr>fileWriter := Some fd\<rparr>)
            (if fileWriter w \<noteq> None then snd (file_Close (fileWriter w) os1) else os1))"

text \<open>
  The probing loop of \<open>doRotate\<close>,
  \<open>for ; err == nil && num <= 999; num++ { fName = ...; _, err = os.Lstat(fName) }\<close>,
  with the variables it updates: \<open>num\<close>, \<open>fName\<close>, \<open>err\<close>.
\<close>

definition numbered_name :: "fileLogWriter \<Rightarrow> string \<Rightarrow> nat \<Rightarrow> path" where
  "numbered_name w date num = fileNameOnly w @ ''.'' @ date @ ''.'' @ pad 3 num @ suffix w"

definition dated_name :: "fileLogWriter \<Rightarrow> string \<Rightarrow> path" where
  "dated_name w date = fileNameOnly w @ ''.'' @ date @ suffix w"

function probe ::
  "fileLogWriter \<Rightarrow> string \<Rightarrow> nat \<Rightarrow> path \<Rightarrow> error option \<Rightarrow> os_state
     \<Rightarrow> path \<times> error option \<times> os_state" where
  "probe w date num fName err os =
     (if err = None \<and> num \<le> 999
      then (case os_Lstat (numbered_name w date num) os of
              (err', os') \<Rightarrow> probe w date (num + 1) (numbered_name w date num) err' os')
      else (fName, err, os))"
  by pat_completeness auto
termination
  by (relation "measure (\<lambda>(w, date, num, fName, err, os). 1000 - num)") auto

declare probe.simps [simp del]

text \<open>The tail of \<open>doRotate\<close> from the label \<open>RESTART_LOGGER\<close>.\<close>

definition restart_logger ::
  "error option \<Rightarrow> fileLogWriter \<Rightarrow> os_state \<Rightarrow> error option \<times> fileLogWriter \<times> os_state" where
  "restart_logger err w os =
     (case startLogger w os of
        (Some e, w', os') \<Rightarrow>
          (Some (Errorf (''Rotate StartLogger: '' @ error_string e @ [newline])), w', os')
      | (None, w', os') \<Rightarrow>
          (case err of
             Some e \<Rightarrow> (Some (Errorf (''Rotate: '' @ error_string e @ [newline])), w', os')
           | None \<Rightarrow> (None, w', os')))"

text \<open>
  \<open>doRotate\<close>. Where every probed name exists, \<open>err\<close> is nil after the loop and the
  \<open>return fmt.Errorf(..., err.Error())\<close> calls a method on the nil interface: a panic.
\<close>

definition nil_dereference :: string where
  "nil_dereference = ''runtime error: invalid memory address or nil pointer dereference''"

definition find_name :: "fileLogWriter \<Rightarrow> gotime \<Rightarrow> os_state \<Rightarrow> path \<times> error option \<times> os_state" where
  "find_name w logTime os =
     (if MaxLines w > 0 \<or> MaxSize w > 0
      then probe w (format_date logTime) 1 [] None os
      else (case os_Lstat (dated_name w (format_date (dailyOpenTime w))) os of
              (err, os') \<Rightarrow>
                probe w (format_date (dailyOpenTime w)) 1
                  (dated_name w (format_date (dailyOpenTime w))) err os'))"

text \<open>The rename of the closed file and, when it succeeded, the \<open>Chmod\<close> of the copy.\<close>

definition rename_step :: "fileLogWriter \<Rightarrow> path \<Rightarrow> int \<Rightarrow> os_state \<Rightarrow> error option \<times> os_state" where
  "rename_step w fName rotatePerm os =
     (case os_Rename (Filename w) fName os of
        (Some e, os') \<Rightarrow> (Some e, os')
      | (None, os') \<Rightarrow> os_Chmod fName (FileMode rotatePerm) os')"

definition doRotate ::
  "fileLogWriter \<Rightarrow> gotime \<Rightarrow> os_state \<Rightarrow> (error option \<times> fileLogWriter \<times> os_state) outcome" where
  "doRotate w logTime os =
     (case ParseInt8 (RotatePerm w) of
        Inl e \<Rightarrow> Returns (Some e, w, os)
      | Inr rotatePerm \<Rightarrow>
         (case os_Lstat (Filename w) os of
            (Some e, os1) \<Rightarrow> Returns (restart_logger (Some e) w os1)
          | (None, os1) \<Rightarrow>
             (case find_name w logTime os1 of
                (fName, None, os2) \<Rightarrow> Panic nil_dereference
              | (fName, Some e, os2) \<Rightarrow>
                 (case rename_step w fName rotatePerm (snd (file_Close (fileWriter w) os2)) of
                    (err, os3) \<Rightarrow> Returns (restart_logger err w os3)))))"

definition quoted :: "string \<Rightarrow> string" where
  "quoted s = [CHR 0x22] @ s @ [CHR 0x22]"

text \<open>
  The rotation check at the head of \<open>WriteMsg\<close>: the condition is tested under the read
  lock and again under the write lock; an error of \<open>doRotate\<close> goes to stderr only.
\<close>

definition rotate_check ::
  "fileLogWriter \<Rightarrow> gotime \<Rightarrow> string \<Rightarrow> int \<Rightarrow> os_state \<Rightarrow> (fileLogWriter \<times> os_state) outcome" where
  "rotate_check w when line d os =
     (if Rotate w
      then (if needRotate w (int (length line)) d
            then (if needRotate w (int (length line)) d
                  then (case doRotate w when os of
                          Panic p \<Rightarrow> Panic p
                        | Blocks \<Rightarrow> Blocks
                        | Returns (Some e, w', os') \<Rightarrow>
                            Returns (w', eprint (''FileLogWriter('' @ quoted (Filename w') @ ''): ''
                                                 @ error_string e @ [newline]) os')
                        | Returns (None, w', os') \<Rightarrow> Returns (w', os'))
                  else Returns (w, os))
            else Returns (w, os))
      else Returns (w, os))"

definition log_line :: "gotime \<Rightarrow> string \<Rightarrow> string" where
  "log_line when msg = fst (formatTimeHeader when) @ msg @ [newline]"

text \<open>The write at the end of \<open>WriteMsg\<close>, with the update of the two counters.\<close>

definition write_line ::
  "fileLogWriter \<Rightarrow> string \<Rightarrow> os_state \<Rightarrow> error option \<times> fileLogWriter \<times> os_state" where
  "write_line w line os =
     (case file_Write (fileWriter w) line os of
        (None, os') \<Rightarrow>
          (None, w\<lparr>maxLinesCurLines := maxLinesCurLines w + 1,
                   maxSizeCurSize := maxSizeCurSize w + int (length line)\<rparr>, os')
      | (Some e, os') \<Rightarrow> (Some e, w, os'))"

definition WriteMsg ::
  "fileLogWriter \<Rightarrow> gotime \<Rightarrow> string \<Rightarrow> int \<Rightarrow> os_state
     \<Rightarrow> (error option \<times> fileLogWriter \<times> os_state) outcome" where
  "WriteMsg w when msg level os =
     (if level > Level w then Returns (None, w, os)
      else (case rotate_check w when (log_line when msg) (snd (formatTimeHeader when)) os of
              Panic p \<Rightarrow> Panic p
            | Blocks \<Rightarrow> Blocks
            | Returns (w1, os1) \<Rightarrow> Returns (write_line w1 (log_line when msg) os1)))"

definition Destroy :: "fileLogWriter \<Rightarrow> os_state \<Rightarrow> os_state" where
  "Destroy w os = snd (file_Close (fileWriter w) os)"

definition Flush :: "fileLogWriter \<Rightarrow> os_state \<Rightarrow> os_state" where
  "Flush w os = snd (file_Sync (fileWriter w) os)"

section \<open>The dispatch engine\<close>

text \<open>
  A buffered Go channel: the queued values in arrival order, the capacity, and whether
  \<open>close\<close> was called. A send on a closed channel panics, a send on a full one blocks.
\<close>

record 'a chan =
  buf :: "'a list"
  cap :: nat
  closed :: bool

definition make_chan :: "nat \<Rightarrow> 'a chan" where
  "make_chan n = \<lparr>buf = [], cap = n, closed = False\<rparr>"

definition chan_send :: "'a chan \<Rightarrow> 'a \<Rightarrow> 'a chan outcome" where
  "chan_send c v =
     (if closed c then Panic ''send on closed channel''
      else if length (buf c) < cap c then Returns (c\<lparr>buf := buf c @ [v]\<rparr>)
      else Blocks)"

definition chan_close :: "'a chan \<Rightarrow> 'a chan outcome" where
  "chan_close c = (if closed c then Panic ''close of closed channel'' else Returns (c\<lparr>closed := True\<rparr>))"

record logMsg =
  lm_level :: int
  lm_msg :: string
  lm_when :: gotime

record nameLogger =
  Logger :: fileLogWriter
  name :: string

text \<open>
  The struct \<open>WLogger\<close>, without its mutex. \<open>msgChan\<close> is nil until \<open>Async\<close> makes it;
  \<open>wg\<close> is the counter of the \<open>sync.WaitGroup\<close>; \<open>outputs\<close> is nil or the file writer
  with its adapter name. Records taken from \<open>logMsgPool\<close> are passed by value: one is
  put back only after the consumer has written it.
\<close>

record WLogger =
  level :: int
  init :: bool
  enableFuncCallDepth :: bool
  loggerFuncCallDepth :: int
  asynchronous :: bool
  msgChanLen :: int
  msgChan :: "logMsg chan option"
  signalChan :: "string chan"
  wg :: int
  outputs :: "nameLogger option"

definition levelPrefix :: "string list" where
  "levelPrefix = [''[M] '', ''[A] '', ''[C] '', ''[E] '', ''[W] '', ''[N] '', ''[I] '', ''[D] '']"

definition levelLoggerImpl :: int where
  "levelLoggerImpl = - 1"

definition AdapterFile :: string where
  "AdapterFile = ''file''"

definition zero_time :: gotime where
  "zero_time = \<lparr>year = 1, month = 1, day = 1, hour = 0, minute = 0, second = 0\<rparr>"

definition newFileWriter :: fileLogWriter where
  "newFileWriter =
     \<lparr>Filename = [], fileWriter = None, Day = 7,
      MaxLines = 0, maxLinesCurLines = 0, MaxSize = 0, maxSizeCurSize = 0,
      Daily = True, dailyOpenDate = 0, dailyOpenTime = zero_time,
      Rotate = True, Level = 7, Perm = ''0666'', RotatePerm = ''0666'',
      fileNameOnly = [], suffix = []\<rparr>"

text \<open>
  \<open>filepath.Ext\<close>: from the last dot of the last path element, empty without a dot;
  \<open>strings.TrimSuffix\<close>.
\<close>

definition filepath_Ext :: "path \<Rightarrow> string" where
  "filepath_Ext p =
     (let r = takeWhile (\<lambda>c. c \<noteq> CHR ''/'') (rev p)
      in if CHR ''.'' \<in> set r then rev (takeWhile (\<lambda>c. c \<noteq> CHR ''.'') r @ ''.'') else [])"

definition TrimSuffix :: "string \<Rightarrow> string \<Rightarrow> string" where
  "TrimSuffix s suf =
     (if length suf \<le> length s \<and> drop (length s - length suf) s = suf
      then take (length s - length suf) s else s)"

text \<open>
  \<open>Init\<close> of the file writer. The JSON decoding of the configuration into the struct is
  the parameter \<open>decode\<close>; the empty configuration \<open>{}\<close> is \<open>Inr\<close>, which sets no field.
\<close>

definition Init ::
  "(fileLogWriter \<Rightarrow> error + fileLogWriter) \<Rightarrow> fileLogWriter \<Rightarrow> os_state
     \<Rightarrow> error option \<times> fileLogWriter \<times> os_state" where
  "Init decode w os =
     (case decode w of
        Inl e \<Rightarrow> (Some e, w, os)
      | Inr w1 \<Rightarrow>
         if length (Filename w1) = 0 then (Some (Errorf ''must have filename''), w1, os)
         else startLogger
                (w1\<lparr>suffix := (if filepath_Ext (Filename w1) = [] then ''.log''
                                 else filepath_Ext (Filename w1)),
                     fileNameOnly := TrimSuffix (Filename w1) (filepath_Ext (Filename w1)),
                     Day := (if Day w1 = 0 then 7 else Day w1)\<rparr>)
                os)"

definition setLogger ::
  "WLogger \<Rightarrow> string \<Rightarrow> (fileLogWriter \<Rightarrow> error + fileLogWriter) \<Rightarrow> os_state
     \<Rightarrow> error option \<times> WLogger \<times> os_state" where
  "setLogger bl adapterName decode os =
     (case Init decode newFileWriter os of
        (Some e, lg, os') \<Rightarrow>
          (Some e, bl, eprint (''logs.SetLogger:'' @ error_string e @ [newline]) os')
      | (None, lg, os') \<Rightarrow>
          (None, bl\<lparr>outputs := Some \<lparr>Logger = lg, name = adapterName\<rparr>\<rparr>, os'))"

definition SetLogger ::
  "WLogger \<Rightarrow> string \<Rightarrow> (fileLogWriter \<Rightarrow> error + fileLogWriter) \<Rightarrow> os_state
     \<Rightarrow> error option \<times> WLogger \<times> os_state" where
  "SetLogger bl adapterName decode os = setLogger (bl\<lparr>init := True\<rparr>) adapterName decode os"

definition NewLogger :: "int list \<Rightarrow> WLogger" where
  "NewLogger channelLens =
     \<lparr>level = 7, init = False, enableFuncCallDepth = False, loggerFuncCallDepth = 2,
      asynchronous = False,
      msgChanLen = (if hd (channelLens @ [0]) \<le> 0 then 1000 else hd (channelLens @ [0])),
      msgChan = None, signalChan = make_chan 1, wg = 0, outputs = None\<rparr>"

text \<open>\<open>Async\<close>: makes the queue and starts the consumer, once.\<close>

definition Async :: "WLogger \<Rightarrow> int list \<Rightarrow> WLogger" where
  "Async bl msgLen =
     (if asynchronous bl then bl
      else bl\<lparr>asynchronous := True,
               msgChanLen := (if length msgLen > 0 \<and> hd msgLen > 0 then hd msgLen else msgChanLen bl),
               msgChan := Some (make_chan (nat (if length msgLen > 0 \<and> hd msgLen > 0
                                                 then hd msgLen else msgChanLen bl))),
               wg := wg bl + 1\<rparr>)"

text \<open>
  \<open>writeToLoggers\<close>: the error of the writer is printed to stderr and goes no further;
  the function has no result. A nil \<open>outputs\<close> is dereferenced.
\<close>

definition writeToLoggers ::
  "WLogger \<Rightarrow> gotime \<Rightarrow> string \<Rightarrow> int \<Rightarrow> os_state \<Rightarrow> (WLogger \<times> os_state) outcome" where
  "writeToLoggers bl when msg lvl os =
     (case outputs bl of
        None \<Rightarrow> Panic nil_dereference
      | Some nl \<Rightarrow>
         (case WriteMsg (Logger nl) when msg lvl os of
            Panic p \<Rightarrow> Panic p
          | Blocks \<Rightarrow> Blocks
          | Returns (None, w', os') \<Rightarrow> Returns (bl\<lparr>outputs := Some (nl\<lparr>Logger := w'\<rparr>)\<rparr>, os')
          | Returns (Some e, w', os') \<Rightarrow>
              Returns (bl\<lparr>outputs := Some (nl\<lparr>Logger := w'\<rparr>)\<rparr>,
                       eprint (''unable to writeMsg to adapter:'' @ name nl @ '',error:''
                               @ error_string e @ [newline]) os')))"

text \<open>
  What the Go runtime supplies to \<open>WriteMsg\<close>: the two formatting functions of \<open>fmt\<close> on
  the variadic arguments, and \<open>runtime.Caller\<close> (file and line, or nothing).
\<close>

record 'v goenv =
  Sprintf :: "string \<Rightarrow> 'v list \<Rightarrow> string"
  Sprint :: "'v list \<Rightarrow> string"
  Caller :: "int \<Rightarrow> (string \<times> nat) option"

definition path_base :: "string \<Rightarrow> string" where
  "path_base file = rev (takeWhile (\<lambda>c. c \<noteq> CHR ''/'') (rev file))"

text \<open>The text of the record before the level prefix: formatting and call site.\<close>

definition render_msg :: "'v goenv \<Rightarrow> WLogger \<Rightarrow> string \<Rightarrow> 'v list \<Rightarrow> string" where
  "render_msg rt bl msg v =
     (let msg1 = (if length v > 0
                  then (if CHR ''%'' \<in> set msg then Sprintf rt msg v else msg @ Sprint rt v)
                  else msg)
      in if enableFuncCallDepth bl
         then (case Caller rt (loggerFuncCallDepth bl) of
                 None \<Rightarrow> ''['' @ path_base ''???'' @ '':'' @ itoa 0 @ '']'' @ msg1
               | Some (file, line) \<Rightarrow> ''['' @ path_base file @ '':'' @ itoa line @ '']'' @ msg1)
         else msg1)"

text \<open>
  The end of \<open>WriteMsg\<close>: in asynchronous mode the record is sent on \<open>msgChan\<close> (a send on
  a nil channel blocks for ever), otherwise it is written at once. The returned error
  is nil on both paths.
\<close>

definition dispatch ::
  "WLogger \<Rightarrow> int \<Rightarrow> string \<Rightarrow> gotime \<Rightarrow> os_state \<Rightarrow> (error option \<times> WLogger \<times> os_state) outcome" where
  "dispatch bl lvl msg when os =
     (if asynchronous bl
      then (case msgChan bl of
              None \<Rightarrow> Blocks
            | Some c \<Rightarrow>
               (case chan_send c \<lparr>lm_level = lvl, lm_msg = msg, lm_when = when\<rparr> of
                  Panic p \<Rightarrow> Panic p
                | Blocks \<Rightarrow> Blocks
                | Returns c' \<Rightarrow> Returns (None, bl\<lparr>msgChan := Some c'\<rparr>, os)))
      else (case writeToLoggers bl when msg lvl os of
              Panic p \<Rightarrow> Panic p
            | Blocks \<Rightarrow> Blocks
            | Returns (bl', os') \<Rightarrow> Returns (None, bl', os')))"

text \<open>
  \<open>WLogger.WriteMsg\<close>. Without \<open>init\<close> it first calls \<open>setLogger(AdapterFile)\<close> with the
  empty configuration and drops the result. \<open>levelPrefix[logLevel]\<close> panics outside
  \<open>0..7\<close>.
\<close>

definition index_out_of_range :: string where
  "index_out_of_range = ''runtime error: index out of range''"

definition WLogger_WriteMsg ::
  "'v goenv \<Rightarrow> WLogger \<Rightarrow> int \<Rightarrow> string \<Rightarrow> 'v list \<Rightarrow> os_state
     \<Rightarrow> (error option \<times> WLogger \<times> os_state) outcome" where
  "WLogger_WriteMsg rt bl logLevel msg v os =
     (case (if \<not> init bl then snd (setLogger bl AdapterFile Inr os) else (bl, os)) of
        (bl1, os1) \<Rightarrow>
          if logLevel = levelLoggerImpl
          then dispatch bl1 0 (render_msg rt bl1 msg v) (now os1) os1
          else if logLevel < 0 \<or> logLevel \<ge> int (length levelPrefix)
          then Panic index_out_of_range
          else dispatch bl1 logLevel (levelPrefix ! nat logLevel @ render_msg rt bl1 msg v)
                 (now os1) os1)"

text \<open>
  The leveled methods (\<open>Emergency\<close> ... \<open>Debug\<close>, \<open>Warn\<close>, \<open>Info\<close>, \<open>Trace\<close>) share one
  body: nothing above the engine's level, otherwise \<open>WriteMsg\<close>, whose result is
  dropped; they return nothing.
\<close>

definition leveled ::
  "'v goenv \<Rightarrow> WLogger \<Rightarrow> int \<Rightarrow> string \<Rightarrow> 'v list \<Rightarrow> os_state \<Rightarrow> (WLogger \<times> os_state) outcome" where
  "leveled rt bl lvl format v os =
     (if lvl > level bl then Returns (bl, os)
      else (case WLogger_WriteMsg rt bl lvl format v os of
              Panic p \<Rightarrow> Panic p
            | Blocks \<Rightarrow> Blocks
            | Returns (e, bl', os') \<Rightarrow> Returns (bl', os')))"

text \<open>\<open>flush\<close> when the engine is synchronous, and \<open>Close\<close> in that mode.\<close>

definition flush_outputs :: "WLogger \<Rightarrow> os_state \<Rightarrow> (WLogger \<times> os_state) outcome" where
  "flush_outputs bl os =
     (case outputs bl of
        None \<Rightarrow> Panic nil_dereference
      | Some nl \<Rightarrow> Returns (bl, Flush (Logger nl) os))"

definition destroy_outputs :: "WLogger \<Rightarrow> os_state \<Rightarrow> (WLogger \<times> os_state) outcome" where
  "destroy_outputs bl os =
     (case outputs bl of
        None \<Rightarrow> Panic nil_dereference
      | Some nl \<Rightarrow> Returns (bl\<lparr>outputs := None\<rparr>, Destroy (Logger nl) os))"

definition Close_sync :: "WLogger \<Rightarrow> os_state \<Rightarrow> (WLogger \<times> os_state) outcome" where
  "Close_sync bl os =
     (case flush_outputs bl os of
        Panic p \<Rightarrow> Panic p
      | Blocks \<Rightarrow> Blocks
      | Returns (bl1, os1) \<Rightarrow>
         (case destroy_outputs bl1 os1 of
            Panic p \<Rightarrow> Panic p
          | Blocks \<Rightarrow> Blocks
          | Returns (bl2, os2) \<Rightarrow>
             (case chan_close (signalChan bl2) of
                Panic p \<Rightarrow> Panic p
              | Blocks \<Rightarrow> Blocks
              | Returns c \<Rightarrow> Returns (bl2\<lparr>signalChan := c\<rparr>, os2))))"

section \<open>The engine with its consumer\<close>

text \<open>
  The goroutines of an engine are interleaved by a schedule, a list of events; each
  event is one atomic action of one goroutine. Producers submit records
  (\<open>Submit\<close>, one call of \<open>WriteMsg\<close>). The consumer (\<open>startLogger\<close> of the engine)
  either receives a record (\<open>Receive\<close>) or a signal (\<open>Signal\<close>); after a signal it runs
  \<open>flush\<close>, which takes the queued records one at a time (\<open>DrainOne\<close>) and ends when
  the queue is found empty (\<open>FlushDone\<close>: flush of the writer, on \<open>close\<close> its release,
  then \<open>wg.Done\<close>). One more goroutine calls \<open>Flush\<close> and \<open>Close\<close>: the send of the signal
  (\<open>CallFlush\<close>, \<open>CallClose\<close>) and the return after \<open>wg.Wait\<close>
  (\<open>FlushReturn\<close>, \<open>CloseReturn\<close>). An event that its goroutine cannot take in the
  current state \<open>Blocks\<close>.

  \<open>sent\<close> and \<open>handed\<close> are history variables: the records sent on \<open>msgChan\<close> and the
  records the consumer has passed to \<open>writeToLoggers\<close>, both in order.
\<close>

datatype consumer_state = Selecting | Flushing string | Exited

datatype caller_state = Idle | FlushWait | CloseWait | Closed

datatype 'v event =
    Submit int string "'v list"
  | Receive
  | Signal
  | DrainOne
  | FlushDone
  | CallFlush
  | FlushReturn
  | CallClose
  | CloseReturn

record system =
  engine :: WLogger
  world :: os_state
  consumer :: consumer_state
  control :: caller_state
  sent :: "logMsg list"
  handed :: "logMsg list"

definition queue :: "WLogger \<Rightarrow> logMsg list" where
  "queue bl = (case msgChan bl of None \<Rightarrow> [] | Some c \<Rightarrow> buf c)"

text \<open>The consumer takes the head of the queue and writes it.\<close>

definition take_and_write :: "system \<Rightarrow> system outcome" where
  "take_and_write s =
     (case msgChan (engine s) of
        None \<Rightarrow> Blocks
      | Some c \<Rightarrow>
         (case buf c of
            [] \<Rightarrow> if closed c then Panic nil_dereference else Blocks
          | bm # rest \<Rightarrow>
             (case writeToLoggers ((engine s)\<lparr>msgChan := Some (c\<lparr>buf := rest\<rparr>)\<rparr>)
                     (lm_when bm) (lm_msg bm) (lm_level bm) (world s) of
                Panic p \<Rightarrow> Panic p
              | Blocks \<Rightarrow> Blocks
              | Returns (bl', os') \<Rightarrow>
                  Returns (s\<lparr>engine := bl', world := os', handed := handed s @ [bm]\<rparr>))))"

definition wg_Done :: "WLogger \<Rightarrow> WLogger outcome" where
  "wg_Done bl =
     (if wg bl - 1 < 0 then Panic ''sync: negative WaitGroup counter''
      else Returns (bl\<lparr>wg := wg bl - 1\<rparr>))"

definition send_signal :: "string \<Rightarrow> caller_state \<Rightarrow> system \<Rightarrow> system outcome" where
  "send_signal sg waiting s =
     (case chan_send (signalChan (engine s)) sg of
        Panic p \<Rightarrow> Panic p
      | Blocks \<Rightarrow> Blocks
      | Returns c \<Rightarrow> Returns (s\<lparr>engine := (engine s)\<lparr>signalChan := c\<rparr>, control := waiting\<rparr>))"

fun step :: "'v goenv \<Rightarrow> 'v event \<Rightarrow> system \<Rightarrow> system outcome" where
  "step rt (Submit lvl msg v) s =
     (case WLogger_WriteMsg rt (engine s) lvl msg v (world s) of
        Panic p \<Rightarrow> Panic p
      | Blocks \<Rightarrow> Blocks
      | Returns (e, bl', os') \<Rightarrow>
          Returns (s\<lparr>engine := bl', world := os',
                     sent := sent s @ drop (length (queue (engine s))) (queue bl')\<rparr>))"
| "step rt Receive s =
     (if consumer s = Selecting then take_and_write s else Blocks)"
| "step rt Signal s =
     (if consumer s = Selecting
      then (case buf (signalChan (engine s)) of
              [] \<Rightarrow> if closed (signalChan (engine s))
                    then Returns (s\<lparr>consumer := Flushing []\<rparr>) else Blocks
            | sg # rest \<Rightarrow>
                Returns (s\<lparr>engine := (engine s)\<lparr>signalChan := (signalChan (engine s))\<lparr>buf := rest\<rparr>\<rparr>,
                           consumer := Flushing sg\<rparr>))
      else Blocks)"
| "step rt DrainOne s =
     (case consumer s of
        Flushing sg \<Rightarrow>
          if asynchronous (engine s) \<and> length (queue (engine s)) > 0
          then take_and_write s else Blocks
      | Selecting \<Rightarrow> Blocks
      | Exited \<Rightarrow> Blocks)"
| "step rt FlushDone s =
     (case consumer s of
        Flushing sg \<Rightarrow>
          if asynchronous (engine s) \<and> length (queue (engine s)) > 0 then Blocks
          else (case flush_outputs (engine s) (world s) of
                  Panic p \<Rightarrow> Panic p
                | Blocks \<Rightarrow> Blocks
                | Returns (bl1, os1) \<Rightarrow>
                   (if sg = ''close''
                    then (case destroy_outputs bl1 os1 of
                            Panic p \<Rightarrow> Panic p
                          | Blocks \<Rightarrow> Blocks
                          | Returns (bl2, os2) \<Rightarrow>
                             (case wg_Done bl2 of
                                Panic p \<Rightarrow> Panic p
                              | Blocks \<Rightarrow> Blocks
                              | Returns bl3 \<Rightarrow>
                                  Returns (s\<lparr>engine := bl3, world := os2, consumer := Exited\<rparr>)))
                    else (case wg_Done bl1 of
                            Panic p \<Rightarrow> Panic p
                          | Blocks \<Rightarrow> Blocks
                          | Returns bl3 \<Rightarrow>
                              Returns (s\<lparr>engine := bl3, world := os1, consumer := Selecting\<rparr>))))
      | Selecting \<Rightarrow> Blocks
      | Exited \<Rightarrow> Blocks)"
| "step rt CallFlush s =
     (if control s = FlushWait \<or> control s = CloseWait then Blocks
      else if asynchronous (engine s) then send_signal ''flush'' FlushWait s
      else (case flush_outputs (engine s) (world s) of
              Panic p \<Rightarrow> Panic p
            | Blocks \<Rightarrow> Blocks
            | Returns (bl', os') \<Rightarrow> Returns (s\<lparr>engine := bl', world := os'\<rparr>)))"
| "step rt FlushReturn s =
     (if control s = FlushWait \<and> wg (engine s) = 0
      then Returns (s\<lparr>engine := (engine s)\<lparr>wg := wg (engine s) + 1\<rparr>, control := Idle\<rparr>)
      else Blocks)"
| "step rt CallClose s =
     (if control s = FlushWait \<or> control s = CloseWait then Blocks
      else if asynchronous (engine s) then send_signal ''close'' CloseWait s
      else (case Close_sync (engine s) (world s) of
              Panic p \<Rightarrow> Panic p
            | Blocks \<Rightarrow> Blocks
            | Returns (bl', os') \<Rightarrow> Returns (s\<lparr>engine := bl', world := os', control := Closed\<rparr>)))"
| "step rt CloseReturn s =
     (if control s = CloseWait \<and> wg (engine s) = 0
      then (case msgChan (engine s) of
              None \<Rightarrow> Panic ''close of nil channel''
            | Some c \<Rightarrow>
               (case chan_close c of
                  Panic p \<Rightarrow> Panic p
                | Blocks \<Rightarrow> Blocks
                | Returns c' \<Rightarrow>
                   (case chan_close (signalChan (engine s)) of
                      Panic p \<Rightarrow> Panic p
                    | Blocks \<Rightarrow> Blocks
                    | Returns sc' \<Rightarrow>
                        Returns (s\<lparr>engine := (engine s)\<lparr>msgChan := Some c', signalChan := sc'\<rparr>,
                                   control := Closed\<rparr>))))
      else Blocks)"

fun run :: "'v goenv \<Rightarrow> 'v event list \<Rightarrow> system \<Rightarrow> system outcome" where
  "run rt [] s = Returns s"
| "run rt (e # es) s =
     (case step rt e s of
        Panic p \<Rightarrow> Panic p
      | Blocks \<Rightarrow> Blocks
      | Returns s' \<Rightarrow> run rt es s')"

text \<open>The line the writer appends for a queued record.\<close>

definition line_of :: "logMsg \<Rightarrow> string" where
  "line_of m = log_line (lm_when m) (lm_msg m)"

text \<open>
  The order property of a state: what was sent is what the consumer has handed to the
  writer followed by what is still queued, and the lines appended to files so far are,
  in order, lines of handed records.
\<close>

definition in_order :: "system \<Rightarrow> bool" where
  "in_order s =
     (sent s = handed s @ queue (engine s)
      \<and> subseq (writes (trace (world s))) (map line_of (handed s)))"

fun is_submit :: "'v event \<Rightarrow> bool" where
  "is_submit (Submit lvl msg v) = True"
| "is_submit e = False"

text \<open>
  An engine after \<open>Close\<close>: the signal channel is closed, and so is the queue of an
  asynchronous engine; a synchronous engine has released its writer.
\<close>

definition engine_closed :: "WLogger \<Rightarrow> bool" where
  "engine_closed bl =
     (closed (signalChan bl)
      \<and> (if asynchronous bl
         then (case msgChan bl of None \<Rightarrow> False | Some c \<Rightarrow> closed c)
         else outputs bl = None))"

section \<open>Concrete states\<close>

text \<open>
  A small system used to run the definitions: \<open>app.log\<close> holds two lines and is open
  on descriptor 3; no call is made to fail.
\<close>

text \<open>
  What the claims say of a writer and its file: the handle was handed out by this
  system, the byte counter is the size of the open file, and the line counter is the
  number of newlines in it.
\<close>

definition handle_ok :: "fileLogWriter \<Rightarrow> os_state \<Rightarrow> bool" where
  "handle_ok w os = (case fileWriter w of None \<Rightarrow> True | Some fd \<Rightarrow> fd < next_fd os)"

definition open_file :: "fileLogWriter \<Rightarrow> os_state \<Rightarrow> string option" where
  "open_file w os =
     (case fileWriter w of
        None \<Rightarrow> None
      | Some fd \<Rightarrow> (case fdt os fd of
                     None \<Rightarrow> None
                   | Some d \<Rightarrow> Some (content (inodes os (ino d)))))"

definition size_counter_exact :: "fileLogWriter \<Rightarrow> os_state \<Rightarrow> bool" where
  "size_counter_exact w os =
     (case open_file w os of None \<Rightarrow> False | Some c \<Rightarrow> maxSizeCurSize w = int (length c))"

definition line_counter_exact :: "fileLogWriter \<Rightarrow> os_state \<Rightarrow> bool" where
  "line_counter_exact w os =
     (case open_file w os of None \<Rightarrow> False | Some c \<Rightarrow> maxLinesCurLines w = count_newlines c)"

text \<open>
  Two relations between an earlier and a later state of the system: nothing but the
  trace has changed; the trace has grown by calls that write nothing.
\<close>

definition only_traced :: "os_state \<Rightarrow> os_state \<Rightarrow> bool" where
  "only_traced os os' =
     (dir os' = dir os \<and> inodes os' = inodes os \<and> fdt os' = fdt os
      \<and> next_fd os' = next_fd os \<and> next_ino os' = next_ino os
      \<and> faults os' = faults os \<and> now os' = now os \<and> stderr os' = stderr os)"

definition no_writes :: "os_state \<Rightarrow> os_state \<Rightarrow> bool" where
  "no_writes os os' =
     (prefix (trace os) (trace os') \<and> writes (drop (length (trace os)) (trace os')) = [])"

text \<open>
  Both counters agree with the open file; the line counter is held to it only when line
  rotation is enabled, the one case in which it is seeded from the file.
\<close>

definition counters_exact :: "fileLogWriter \<Rightarrow> os_state \<Rightarrow> bool" where
  "counters_exact w os =
     (handle_ok w os \<and> size_counter_exact w os \<and> (MaxLines w \<le> 0 \<or> line_counter_exact w os))"




definition file_of_lines :: "string list \<Rightarrow> string" where
  "file_of_lines ls = concat (map (\<lambda>l. l @ [newline]) ls)"

fun returned :: "'a outcome \<Rightarrow> 'a option" where
  "returned (Returns x) = Some x"
| "returned (Panic p) = None"
| "returned Blocks = None"

definition example_time :: gotime where
  "example_time = \<lparr>year = 2024, month = 3, day = 5, hour = 10, minute = 4, second = 9\<rparr>"

definition example_os :: os_state where
  "example_os =
     \<lparr>dir = (\<lambda>p. None)(''app.log'' := Some 0),
      inodes = (\<lambda>i. \<lparr>content = [], mode = 0\<rparr>)
                 (0 := \<lparr>content = [CHR ''a'', newline, CHR ''b'', newline], mode = 438\<rparr>),
      fdt = (\<lambda>fd. None)(3 := Some \<lparr>ino = 0, offset = 0\<rparr>),
      next_fd = 4,
      next_ino = 1,
      trace = [],
      faults = (\<lambda>n. None),
      now = example_time,
      stderr = []\<rparr>"

definition example_writer :: fileLogWriter where
  "example_writer =
     \<lparr>Filename = ''app.log'', fileWriter = Some 3, Day = 7,
      MaxLines = 0, maxLinesCurLines = 0, MaxSize = 10, maxSizeCurSize = 4,
      Daily = False, dailyOpenDate = 5, dailyOpenTime = example_time,
      Rotate = True, Level = 6, Perm = ''0666'', RotatePerm = ''0444'',
      fileNameOnly = ''app'', suffix = ''.log''\<rparr>"

text \<open>A writer that rotates at two lines, on the same file: the limit is reached.\<close>

definition example_line_writer :: fileLogWriter where
  "example_line_writer =
     example_writer\<lparr>MaxLines := 2, maxLinesCurLines := 2, MaxSize := 0\<rparr>"

text \<open>The same system when the rename of the rotation (the fourth call) is refused.\<close>

definition rename_refused_os :: os_state where
  "rename_refused_os =
     example_os\<lparr>faults := (\<lambda>n. if n = 3 then Some ''rename: permission denied'' else None)\<rparr>"

text \<open>A directory where the 999 numbered names of the day are all taken.\<close>

definition crowded_os :: os_state where
  "crowded_os =
     example_os\<lparr>dir := (\<lambda>p. if p = ''app.log'' then Some 0
                            else if p \<in> numbered_name example_line_writer ''2024-03-05'' ` {1..999}
                                 then Some 1 else None)\<rparr>"

text \<open>
  A writer that has not opened its file yet, and a system whose eighth call fails: in a
  rotation of \<open>example_line_writer\<close> that is the \<open>Stat\<close> of the reopened file.
\<close>

definition fresh_writer :: fileLogWriter where
  "fresh_writer = example_writer\<lparr>fileWriter := None, maxSizeCurSize := 0\<rparr>"

definition stat_fails_os :: os_state where
  "stat_fails_os =
     example_os\<lparr>faults := (\<lambda>n. if n = 7 then Some ''stat: input/output error'' else None)\<rparr>"

text \<open>
  An engine on \<open>example_writer\<close>, synchronous and asynchronous with a queue of two, and
  the systems they run in. The runtime formats nothing and knows no call site.
\<close>

definition example_goenv :: "unit goenv" where
  "example_goenv = \<lparr>Sprintf = (\<lambda>f v. f), Sprint = (\<lambda>v. []), Caller = (\<lambda>d. None)\<rparr>"

definition sync_engine :: WLogger where
  "sync_engine =
     (NewLogger [])\<lparr>init := True,
                    outputs := Some \<lparr>Logger = example_writer, name = AdapterFile\<rparr>\<rparr>"

definition async_engine :: WLogger where
  "async_engine = Async sync_engine [2]"

definition sync_system :: system where
  "sync_system =
     \<lparr>engine = sync_engine, world = example_os, consumer = Exited, control = Idle,
      sent = [], handed = []\<rparr>"

definition async_system :: system where
  "async_system =
     \<lparr>engine = async_engine, world = example_os, consumer = Selecting, control = Idle,
      sent = [], handed = []\<rparr>"

text \<open>The system when the first call, the \<open>Write\<close> of a record, is refused.\<close>

definition write_refused_os :: os_state where
  "write_refused_os =
     example_os\<lparr>faults := (\<lambda>n. if n = 0 then Some ''write: no space left on device'' else None)\<rparr>"

(*PROPERTIES*)
section \<open>Reading the file back\<close>

lemma count_newlines_append: "count_newlines (a @ b) = count_newlines a + count_newlines b"
  by (simp add: count_newlines_def)

lemma count_newlines_file_of_lines:
  "\<forall>l\<in>set ls. newline \<notin> set l \<Longrightarrow> count_newlines (file_of_lines ls) = int (length ls)"
proof (induction ls)
  case Nil
  then show ?case by (simp add: file_of_lines_def count_newlines_def)
next
  case (Cons l ls)
  have "filter (\<lambda>c. c = newline) l = []" using Cons.prems by (auto simp: filter_empty_conv)
  then have "count_newlines l = 0" by (simp add: count_newlines_def)
  moreover have "count_newlines (file_of_lines ls) = int (length ls)" using Cons by simp
  ultimately show ?case
    using count_newlines_append[of "l @ [newline]" "file_of_lines ls"]
    by (simp add: file_of_lines_def count_newlines_def)
qed

lemma count_newlines_split:
  "count_newlines xs = count_newlines (take n xs) + count_newlines (drop n xs)"
  by (metis append_take_drop_id count_newlines_append)

lemma fault_not_EOF [simp]: "fault os \<noteq> Some EOF"
  by (auto simp: fault_def)

lemma lines_loop_frame:
  "lines_loop fd c os = (r, os') \<Longrightarrow>
   dir os' = dir os \<and> inodes os' = inodes os \<and> faults os' = faults os \<and> now os' = now os
   \<and> stderr os' = stderr os \<and> next_fd os' = next_fd os \<and> next_ino os' = next_ino os
   \<and> (\<forall>fd'. fd' \<noteq> fd \<longrightarrow> fdt os' fd' = fdt os fd')
   \<and> (\<forall>d. fdt os fd = Some d \<longrightarrow> (\<exists>d'. fdt os' fd = Some d' \<and> ino d' = ino d))"
proof (induction fd c os arbitrary: r os' rule: lines_loop.induct)
  case (1 fd count os)
  obtain b err os1 where rd: "file_Read fd 32768 os = ((b, err), os1)"
    by (metis prod.exhaust)
  have fr: "dir os1 = dir os \<and> inodes os1 = inodes os \<and> faults os1 = faults os \<and> now os1 = now os
   \<and> stderr os1 = stderr os \<and> next_fd os1 = next_fd os \<and> next_ino os1 = next_ino os
   \<and> (\<forall>fd'. fd' \<noteq> fd \<longrightarrow> fdt os1 fd' = fdt os fd')
   \<and> (\<forall>d. fdt os fd = Some d \<longrightarrow> (\<exists>d'. fdt os1 fd = Some d' \<and> ino d' = ino d))"
    using rd by (auto simp: file_Read_def called_def Let_def split: option.splits if_splits)
  show ?case
  proof (cases "err = None")
    case True
    then have "lines_loop fd (count + count_newlines b) os1 = (r, os')"
      using 1(2) rd by (subst (asm) lines_loop.simps) simp
    from 1(1)[OF rd[symmetric] refl _ _ this] True fr show ?thesis by auto
  next
    case False
    then have "os' = os1" using 1(2) rd
      by (subst (asm) lines_loop.simps) (auto split: if_splits)
    then show ?thesis using fr by simp
  qed
qed

lemma lines_loop_result:
  "lines_loop fd c os = ((k, None), os') \<Longrightarrow> fdt os fd = Some d \<Longrightarrow>
   k = c + count_newlines (drop (offset d) (content (inodes os (ino d))))"
proof (induction fd c os arbitrary: d rule: lines_loop.induct)
  case (1 fd count os)
  let ?rest = "drop (offset d) (content (inodes os (ino d)))"
  obtain b err os1 where rd: "file_Read fd 32768 os = ((b, err), os1)"
    by (metis prod.exhaust)
  show ?case
  proof (cases "err")
    case None
    then have rec: "lines_loop fd (count + count_newlines b) os1 = ((k, None), os')"
      using 1(2) rd by (subst (asm) lines_loop.simps) simp
    have b: "b = take 32768 ?rest" and ne: "?rest \<noteq> []"
      and f1: "fdt os1 fd = Some (d\<lparr>offset := offset d + length (take 32768 ?rest)\<rparr>)"
      and i1: "inodes os1 = inodes os"
      using rd None 1(3)
      by (auto simp: file_Read_def called_def Let_def split: option.splits if_splits)
    have "k = count + count_newlines b
        + count_newlines (drop (offset d + length (take 32768 ?rest)) (content (inodes os (ino d))))"
      using 1(1)[OF rd[symmetric] refl _ _ rec f1] None i1 by simp
    moreover have "drop (offset d + length (take 32768 ?rest)) (content (inodes os (ino d)))
        = drop 32768 ?rest"
      by (simp add: min_def add.commute drop_all)
    ultimately show ?thesis using b count_newlines_split[of ?rest 32768] by simp
  next
    case (Some e)
    then have "e = EOF" using 1(2) rd
      by (subst (asm) lines_loop.simps) (auto split: if_splits)
    then have "b = [] \<and> ?rest = []" using rd Some 1(3)
      by (auto simp: file_Read_def called_def Let_def split: option.splits if_splits)
    moreover have "k = count + count_newlines b" using 1(2) rd Some \<open>e = EOF\<close>
      by (subst (asm) lines_loop.simps) simp
    ultimately show ?thesis by (simp add: count_newlines_def)
  qed
qed

lemma lines_loop_fst:
  "fdt os fd = Some d \<Longrightarrow> \<forall>n. faults os n = None \<Longrightarrow>
   fst (lines_loop fd c os)
     = (c + count_newlines (drop (offset d) (content (inodes os (ino d)))), None)"
proof (induction fd c os arbitrary: d rule: lines_loop.induct)
  case (1 fd count os)
  let ?rest = "drop (offset d) (content (inodes os (ino d)))"
  show ?case
  proof (cases "?rest = []")
    case True
    then show ?thesis using 1(2,3)
      by (subst lines_loop.simps) (simp add: file_Read_def fault_def count_newlines_def)
  next
    case False
    let ?os1 = "called (SRead fd 32768)
       (os\<lparr>fdt := (fdt os)(fd := Some (d\<lparr>offset := offset d + length (take 32768 ?rest)\<rparr>))\<rparr>)"
    have rd: "file_Read fd 32768 os = ((take 32768 ?rest, None), ?os1)"
      using False 1(2,3) by (simp add: file_Read_def fault_def Let_def)
    have ih: "fst (lines_loop fd (count + count_newlines (take 32768 ?rest)) ?os1)
      = (count + count_newlines (take 32768 ?rest)
          + count_newlines (drop (offset d + length (take 32768 ?rest)) (content (inodes os (ino d)))), None)"
      using 1(1)[OF rd[symmetric] refl, of "d\<lparr>offset := offset d + length (take 32768 ?rest)\<rparr>"] 1(3)
      by (simp add: called_def)
    have "drop (offset d + length (take 32768 ?rest)) (content (inodes os (ino d)))
        = drop 32768 ?rest"
      by (simp add: min_def add.commute drop_all)
    moreover have "count_newlines ?rest = count_newlines (take 32768 ?rest) + count_newlines (drop 32768 ?rest)"
      by (rule count_newlines_split)
    ultimately show ?thesis using ih rd
      by (subst lines_loop.simps) simp
  qed
qed


lemma lines_frame:
  assumes L: "lines w os = (r, os')"
  shows "dir os' = dir os \<and> inodes os' = inodes os \<and> faults os' = faults os \<and> now os' = now os
   \<and> stderr os' = stderr os \<and> next_ino os' = next_ino os \<and> next_fd os \<le> next_fd os'
   \<and> (\<forall>fd. fd < next_fd os \<longrightarrow> fdt os' fd = fdt os fd)"
proof (cases "os_Open (Filename w) os")
  case (Pair a os1)
  show ?thesis
  proof (cases a)
    case (Inl e)
    then show ?thesis using Pair L
      by (auto simp: lines_def os_Open_def called_def split: option.splits)
  next
    case (Inr fd)
    obtain r2 os2 where ll: "lines_loop fd 0 os1 = (r2, os2)" by (metis prod.exhaust)
    have fd: "fd = next_fd os" and o1: "dir os1 = dir os \<and> inodes os1 = inodes os
       \<and> faults os1 = faults os \<and> now os1 = now os \<and> stderr os1 = stderr os
       \<and> next_ino os1 = next_ino os \<and> next_fd os1 = next_fd os + 1
       \<and> (\<forall>fd'. fd' \<noteq> next_fd os \<longrightarrow> fdt os1 fd' = fdt os fd')"
      using Pair Inr by (auto simp: os_Open_def called_def split: option.splits)
    have "os' = snd (file_Close (Some fd) os2)"
      using Pair Inr ll L by (auto simp add: lines_def)
    then show ?thesis using lines_loop_frame[OF ll] o1 fd
      by (auto simp: file_Close_def called_def split: option.splits)
  qed
qed

lemma lines_result:
  assumes "lines w os = ((k, None), os')" "dir os (Filename w) = Some i"
  shows "k = count_newlines (content (inodes os i))"
proof (cases "os_Open (Filename w) os")
  case (Pair a os1)
  show ?thesis
  proof (cases a)
    case (Inl e)
    then show ?thesis using Pair assms by (simp add: lines_def)
  next
    case (Inr fd)
    obtain r2 os2 where ll: "lines_loop fd 0 os1 = (r2, os2)" by (metis prod.exhaust)
    have o1: "fdt os1 fd = Some \<lparr>ino = i, offset = 0\<rparr>" "inodes os1 = inodes os"
      using Pair Inr assms(2) by (auto simp: os_Open_def called_def split: option.splits)
    have "r2 = (k, None)" using Pair Inr ll assms(1) by (simp add: lines_def)
    then show ?thesis using lines_loop_result[of fd 0 os1 k os2, OF _ o1(1)] ll o1(2) by simp
  qed
qed

lemma initFd_ok:
  assumes "initFd w os = (None, w', os')" "fileWriter w = Some fd" "fdt os fd = Some d"
    "fd < next_fd os" "dir os (Filename w) = Some (ino d)"
  shows "w' = w\<lparr>maxSizeCurSize := int (length (content (inodes os (ino d)))),
                 dailyOpenTime := now os, dailyOpenDate := int (day (now os)),
                 maxLinesCurLines :=
                   (if length (content (inodes os (ino d))) > 0 \<and> MaxLines w > 0
                    then count_newlines (content (inodes os (ino d))) else 0)\<rparr>
         \<and> fdt os' fd = Some d \<and> inodes os' = inodes os \<and> dir os' = dir os
         \<and> faults os' = faults os \<and> stderr os' = stderr os"
proof -
  let ?os1 = "called (SFstat fd) os"
  let ?sz = "length (content (inodes os (ino d)))"
  have st: "file_Stat (fileWriter w) os = (Inr ?sz, ?os1)"
    using assms by (auto simp: initFd_def file_Stat_def split: option.splits)
  let ?w1 = "w\<lparr>maxSizeCurSize := int ?sz, dailyOpenTime := now ?os1,
                dailyOpenDate := int (day (now ?os1)), maxLinesCurLines := 0\<rparr>"
  show ?thesis
  proof (cases "?sz > 0 \<and> MaxLines w > 0")
    case False
    then show ?thesis using assms st by (auto simp: initFd_def called_def Let_def)
  next
    case True
    obtain k e os2 where l: "lines ?w1 ?os1 = ((k, e), os2)" by (metis prod.exhaust)
    have e: "e = None" and w': "w' = ?w1\<lparr>maxLinesCurLines := k\<rparr>" and o: "os' = os2"
      using assms(1) st True l by (auto simp: initFd_def Let_def split: option.splits)
    have "k = count_newlines (content (inodes ?os1 (ino d)))"
      using lines_result[of ?w1 ?os1 k os2 "ino d"] l e assms(5) by (simp add: called_def)
    then show ?thesis using w' o True lines_frame[OF l] assms(3,4)
      by (auto simp: called_def)
  qed
qed


lemma writes_append [simp]: "writes (a @ b) = writes a @ writes b"
  by (simp add: writes_def)

lemma writes_Nil [simp]: "writes [] = []"
  by (simp add: writes_def)

lemma createLogFile_ok:
  assumes "createLogFile w os = (Inr fd, os1)"
  shows "fd = next_fd os \<and> next_fd os1 = next_fd os + 1
    \<and> (\<exists>i. dir os1 (Filename w) = Some i \<and> fdt os1 fd = Some \<lparr>ino = i, offset = 0\<rparr>)
    \<and> (\<forall>fd'. fd' \<noteq> fd \<longrightarrow> fdt os1 fd' = fdt os fd')
    \<and> faults os1 = faults os \<and> stderr os1 = stderr os \<and> now os1 = now os
    \<and> (\<forall>p. p \<noteq> Filename w \<longrightarrow> dir os1 p = dir os p)
    \<and> (\<forall>i. dir os (Filename w) = Some i \<longrightarrow> dir os1 (Filename w) = Some i)
    \<and> (\<forall>j. j \<noteq> next_ino os \<or> dir os (Filename w) \<noteq> None
          \<longrightarrow> content (inodes os1 j) = content (inodes os j))
    \<and> (dir os (Filename w) = None
          \<longrightarrow> dir os1 (Filename w) = Some (next_ino os) \<and> content (inodes os1 (next_ino os)) = [])"
  using assms
  by (auto simp: createLogFile_def os_OpenFile_def os_Chmod_def called_def
           split: sum.splits option.splits prod.splits if_splits)

lemma startLogger_ok:
  assumes S: "startLogger w os = (None, w', os')"
    and H: "\<forall>fd0. fileWriter w = Some fd0 \<longrightarrow> fd0 < next_fd os"
  shows "\<exists>d. fileWriter w' = Some (next_fd os) \<and> fdt os' (next_fd os) = Some d
     \<and> dir os' (Filename w) = Some (ino d)
     \<and> w' = w\<lparr>fileWriter := Some (next_fd os),
                maxSizeCurSize := int (length (content (inodes os' (ino d)))),
                dailyOpenTime := now os, dailyOpenDate := int (day (now os)),
                maxLinesCurLines :=
                   (if length (content (inodes os' (ino d))) > 0 \<and> MaxLines w > 0
                    then count_newlines (content (inodes os' (ino d))) else 0)\<rparr>
     \<and> (\<forall>i. dir os (Filename w) = Some i \<longrightarrow> ino d = i)
     \<and> (dir os (Filename w) = None \<longrightarrow> ino d = next_ino os \<and> content (inodes os' (ino d)) = [])
     \<and> (\<forall>j. j \<noteq> next_ino os \<or> dir os (Filename w) \<noteq> None
          \<longrightarrow> content (inodes os' j) = content (inodes os j))
     \<and> (\<forall>p. p \<noteq> Filename w \<longrightarrow> dir os' p = dir os p)
     \<and> faults os' = faults os \<and> stderr os' = stderr os"
proof (cases "createLogFile w os")
  case (Pair a os1)
  show ?thesis
  proof (cases a)
    case (Inl e)
    then show ?thesis using Pair S by (simp add: startLogger_def)
  next
    case (Inr fd)
    note c = createLogFile_ok[OF Pair[unfolded Inr]]
    let ?os2 = "if fileWriter w \<noteq> None then snd (file_Close (fileWriter w) os1) else os1"
    let ?w1 = "w\<lparr>fileWriter := Some fd\<rparr>"
    have i: "initFd ?w1 ?os2 = (None, w', os')"
      using S Pair Inr by (simp add: startLogger_def)
    obtain i where i1: "dir os1 (Filename w) = Some i" "fdt os1 fd = Some \<lparr>ino = i, offset = 0\<rparr>"
      using c by blast
    have o2: "fdt ?os2 fd = Some \<lparr>ino = i, offset = 0\<rparr>" "dir ?os2 = dir os1"
      "inodes ?os2 = inodes os1" "next_fd ?os2 = next_fd os1" "now ?os2 = now os1"
      "faults ?os2 = faults os1" "stderr ?os2 = stderr os1"
      using i1 c H by (auto simp: file_Close_def called_def split: option.splits)
    have "fd < next_fd ?os2" using c o2 by simp
    from initFd_ok[OF i _ o2(1) this] i1 o2 c
    show ?thesis by (auto simp: intro!: exI[of _ "\<lparr>ino = i, offset = 0\<rparr>"])
  qed
qed


lemma nofault [simp]: "\<forall>n. faults os n = None \<Longrightarrow> fault os = None"
  by (simp add: fault_def)

lemma lines_nofault:
  assumes "\<forall>n. faults os n = None" "dir os (Filename w) = Some i"
  shows "snd (fst (lines w os)) = None"
proof -
  let ?os1 = "called (SOpen (Filename w))
                 (os\<lparr>fdt := (fdt os)(next_fd os := Some \<lparr>ino = i, offset = 0\<rparr>),
                     next_fd := next_fd os + 1\<rparr>)"
  have o: "os_Open (Filename w) os = (Inr (next_fd os), ?os1)"
    using assms by (simp add: os_Open_def)
  have "fst (lines_loop (next_fd os) 0 ?os1)
     = (0 + count_newlines (drop (offset \<lparr>ino = i, offset = 0\<rparr>)
           (content (inodes ?os1 (ino \<lparr>ino = i, offset = 0\<rparr>)))), None)"
    by (rule lines_loop_fst) (use assms in \<open>simp_all add: called_def\<close>)
  moreover obtain r os2 where "lines_loop (next_fd os) 0 ?os1 = (r, os2)"
    by (metis prod.exhaust)
  ultimately show ?thesis using o by (simp add: lines_def)
qed

lemma initFd_nofault:
  assumes "\<forall>n. faults os n = None" "fileWriter w = Some fd" "fdt os fd = Some d"
    "dir os (Filename w) = Some (ino d)"
  shows "fst (initFd w os) = None"
proof -
  let ?os1 = "called (SFstat fd) os"
  let ?sz = "length (content (inodes os (ino d)))"
  have st: "file_Stat (fileWriter w) os = (Inr ?sz, ?os1)"
    using assms by (auto simp: file_Stat_def)
  let ?w1 = "w\<lparr>maxSizeCurSize := int ?sz, dailyOpenTime := now ?os1,
                dailyOpenDate := int (day (now ?os1)), maxLinesCurLines := 0\<rparr>"
  have "snd (fst (lines ?w1 ?os1)) = None"
    by (rule lines_nofault[where i = "ino d"]) (use assms in \<open>simp_all add: called_def\<close>)
  then show ?thesis using st
    by (auto simp: initFd_def Let_def split: prod.splits option.splits)
qed

lemma startLogger_nofault:
  assumes N: "\<forall>n. faults os n = None" and P: "ParseInt8 (Perm w) = Inr perm"
    and H: "\<forall>fd0. fileWriter w = Some fd0 \<longrightarrow> fd0 < next_fd os"
  shows "fst (startLogger w os) = None"
proof -
  obtain a os1 where C: "createLogFile w os = (a, os1)" by (metis prod.exhaust)
  then obtain fd where a: "a = Inr fd"
    using N P by (auto simp: createLogFile_def os_OpenFile_def split: option.splits prod.splits)
  note c = createLogFile_ok[OF C[unfolded a]]
  let ?os2 = "if fileWriter w \<noteq> None then snd (file_Close (fileWriter w) os1) else os1"
  obtain i where i1: "dir os1 (Filename w) = Some i" "fdt os1 fd = Some \<lparr>ino = i, offset = 0\<rparr>"
    using c by blast
  have o2: "fdt ?os2 fd = Some \<lparr>ino = i, offset = 0\<rparr>" "dir ?os2 = dir os1"
    "faults ?os2 = faults os1"
    using i1 c H by (auto simp: file_Close_def called_def split: option.splits)
  have "fst (initFd (w\<lparr>fileWriter := Some fd\<rparr>) ?os2) = None"
    by (rule initFd_nofault[where fd = fd and d = "\<lparr>ino = i, offset = 0\<rparr>"])
       (use o2 i1 c N in \<open>simp_all\<close>)
  then show ?thesis using C a by (simp add: startLogger_def)
qed

lemma no_writes_refl [simp]: "no_writes os os"
  by (simp add: no_writes_def)

lemma no_writes_trans: "no_writes a b \<Longrightarrow> no_writes b c \<Longrightarrow> no_writes a c"
  by (auto simp: no_writes_def prefix_def)

lemma no_writes_called: "payload c = [] \<Longrightarrow> trace os' = trace (called c os) \<Longrightarrow> no_writes os os'"
  by (simp add: no_writes_def called_def writes_def)

lemma only_traced_refl [simp]: "only_traced os os"
  by (simp add: only_traced_def)

lemma only_traced_trans: "only_traced a b \<Longrightarrow> only_traced b c \<Longrightarrow> only_traced a c"
  by (simp add: only_traced_def)

lemma os_Lstat_frame: "os_Lstat p os = (e, os') \<Longrightarrow> only_traced os os' \<and> no_writes os os'"
  by (auto simp: os_Lstat_def only_traced_def called_def no_writes_def writes_def
           split: option.splits)

lemma probe_frame:
  "probe w date num fName err os = (f, e, os') \<Longrightarrow> only_traced os os' \<and> no_writes os os'"
proof (induction w date num fName err os rule: probe.induct)
  case (1 w date num fName err os)
  show ?case
  proof (cases "err = None \<and> num \<le> 999")
    case True
    obtain e1 os1 where L: "os_Lstat (numbered_name w date num) os = (e1, os1)"
      by (metis prod.exhaust)
    have "probe w date (num + 1) (numbered_name w date num) e1 os1 = (f, e, os')"
      using 1(2) True L by (subst (asm) probe.simps) simp
    from 1(1)[OF True L[symmetric] this] os_Lstat_frame[OF L]
    show ?thesis by (blast intro: only_traced_trans no_writes_trans)
  next
    case False
    then have "os' = os" using 1(2) by (subst (asm) probe.simps) auto
    then show ?thesis by simp
  qed
qed

lemma find_name_frame:
  "find_name w t os = (f, e, os') \<Longrightarrow> only_traced os os' \<and> no_writes os os'"
  unfolding find_name_def
  by (auto split: if_splits prod.splits dest!: probe_frame os_Lstat_frame
           intro: only_traced_trans no_writes_trans)

lemma file_Close_frame:
  "file_Close f os = (e, os') \<Longrightarrow>
   dir os' = dir os \<and> inodes os' = inodes os \<and> next_fd os' = next_fd os
   \<and> next_ino os' = next_ino os \<and> faults os' = faults os \<and> now os' = now os
   \<and> stderr os' = stderr os \<and> no_writes os os'
   \<and> (\<forall>fd. f \<noteq> Some fd \<longrightarrow> fdt os' fd = fdt os fd)
   \<and> (\<forall>fd. f = Some fd \<longrightarrow> fdt os' fd = None)"
  by (auto simp: file_Close_def called_def no_writes_def writes_def split: option.splits)

lemma rename_step_frame:
  "rename_step w f rp os = (e, os') \<Longrightarrow>
   fdt os' = fdt os \<and> next_fd os' = next_fd os \<and> faults os' = faults os
   \<and> now os' = now os \<and> stderr os' = stderr os \<and> no_writes os os'
   \<and> (\<forall>i. content (inodes os' i) = content (inodes os i))"
  by (auto simp: rename_step_def os_Rename_def os_Chmod_def called_def no_writes_def writes_def
           split: option.splits prod.splits)

lemma probe_all_taken:
  "err = None \<Longrightarrow> \<forall>n. faults os n = None \<Longrightarrow>
   \<forall>n. num \<le> n \<and> n \<le> 999 \<longrightarrow> dir os (numbered_name w date n) \<noteq> None \<Longrightarrow>
   fst (snd (probe w date num fName err os)) = None"
proof (induction w date num fName err os rule: probe.induct)
  case (1 w date num fName err os)
  show ?case
  proof (cases "num \<le> 999")
    case True
    then obtain i where i: "dir os (numbered_name w date num) = Some i"
      using 1(4) by auto
    let ?os1 = "called (SLstat (numbered_name w date num)) os"
    have L: "os_Lstat (numbered_name w date num) os = (None, ?os1)"
      using i 1(3) by (simp add: os_Lstat_def fault_def)
    have "fst (snd (probe w date (num + 1) (numbered_name w date num) None ?os1)) = None"
      using 1(1)[OF _ L[symmetric] refl] True 1(2,3,4) by (simp add: called_def)
    then show ?thesis using True 1(2) L by (subst probe.simps) simp
  next
    case False
    then show ?thesis using 1(2) by (subst probe.simps) simp
  qed
qed

lemma format_date_example: "format_date example_time = ''2024-03-05''"
  by (simp add: format_date_def example_time_def pad_def itoa.simps digit_def)

lemma ParseInt8_0444: "ParseInt8 ''0444'' = Inr 292"
  by (simp add: ParseInt8_def parse_unsigned_def octal_digit_def)

lemma doRotate_panic:
  assumes "ParseInt8 (RotatePerm w) = Inr rp" "os_Lstat (Filename w) os = (None, os1)"
    "fst (snd (find_name w t os1)) = None"
  shows "doRotate w t os = Panic nil_dereference"
proof -
  obtain f e os2 where F: "find_name w t os1 = (f, e, os2)" by (metis prod_cases3)
  then have "e = None" using assms(3) by simp
  then show ?thesis using assms(1,2) F by (simp add: doRotate_def)
qed

lemma lines_loop_no_writes: "lines_loop fd c os = (r, os') \<Longrightarrow> no_writes os os'"
proof (induction fd c os arbitrary: r os' rule: lines_loop.induct)
  case (1 fd count os)
  obtain b err os1 where rd: "file_Read fd 32768 os = ((b, err), os1)"
    by (metis prod.exhaust)
  have fr: "no_writes os os1"
    using rd by (auto simp: file_Read_def called_def Let_def no_writes_def writes_def
                      split: option.splits if_splits)
  show ?case
  proof (cases "err = None")
    case True
    then have "lines_loop fd (count + count_newlines b) os1 = (r, os')"
      using 1(2) rd by (subst (asm) lines_loop.simps) simp
    from 1(1)[OF rd[symmetric] refl _ _ this] True fr show ?thesis
      by (auto intro: no_writes_trans)
  next
    case False
    then have "os' = os1" using 1(2) rd
      by (subst (asm) lines_loop.simps) (auto split: if_splits)
    then show ?thesis using fr by simp
  qed
qed

lemma lines_no_writes:
  assumes "lines w os = (r, os')"
  shows "no_writes os os'"
proof (cases "os_Open (Filename w) os")
  case (Pair a os1)
  have o1: "no_writes os os1" using Pair
    by (auto simp: os_Open_def called_def no_writes_def writes_def split: option.splits)
  show ?thesis
  proof (cases a)
    case (Inl e)
    then show ?thesis using Pair assms o1 by (auto simp: lines_def)
  next
    case (Inr fd)
    obtain r2 os2 where ll: "lines_loop fd 0 os1 = (r2, os2)" by (metis prod.exhaust)
    obtain e3 os3 where cl: "file_Close (Some fd) os2 = (e3, os3)" by (metis prod.exhaust)
    have "os' = os3" using Pair Inr ll cl assms by (auto simp: lines_def)
    then show ?thesis using o1 lines_loop_no_writes[OF ll] file_Close_frame[OF cl]
      by (blast intro: no_writes_trans)
  qed
qed

lemma initFd_frame:
  assumes "initFd w os = (e, w', os')"
  shows "no_writes os os' \<and> stderr os' = stderr os \<and> faults os' = faults os
     \<and> next_fd os \<le> next_fd os' \<and> inodes os' = inodes os \<and> dir os' = dir os
     \<and> (\<forall>fd. fd < next_fd os \<longrightarrow> fdt os' fd = fdt os fd)
     \<and> Filename w' = Filename w \<and> fileWriter w' = fileWriter w \<and> MaxLines w' = MaxLines w
     \<and> MaxSize w' = MaxSize w \<and> Daily w' = Daily w \<and> Rotate w' = Rotate w
     \<and> Level w' = Level w \<and> Perm w' = Perm w \<and> RotatePerm w' = RotatePerm w
     \<and> fileNameOnly w' = fileNameOnly w \<and> suffix w' = suffix w"
proof (cases "file_Stat (fileWriter w) os")
  case (Pair a os1)
  have s1: "no_writes os os1 \<and> stderr os1 = stderr os \<and> faults os1 = faults os
     \<and> next_fd os1 = next_fd os \<and> inodes os1 = inodes os \<and> dir os1 = dir os \<and> fdt os1 = fdt os"
    using Pair by (auto simp: file_Stat_def called_def no_writes_def writes_def split: option.splits)
  show ?thesis
  proof (cases a)
    case (Inl x)
    then show ?thesis using Pair assms s1 by (auto simp: initFd_def)
  next
    case (Inr sz)
    let ?w1 = "w\<lparr>maxSizeCurSize := int sz, dailyOpenTime := now os1,
                  dailyOpenDate := int (day (now os1)), maxLinesCurLines := 0\<rparr>"
    show ?thesis
    proof (cases "sz > 0 \<and> MaxLines w > 0")
      case False
      then show ?thesis using Pair Inr assms s1 by (auto simp: initFd_def Let_def)
    next
      case True
      obtain r os2 where l: "lines ?w1 os1 = (r, os2)" by (metis prod.exhaust)
      have "os' = os2" and "w' = ?w1 \<or> (\<exists>k. w' = ?w1\<lparr>maxLinesCurLines := k\<rparr>)"
        using Pair Inr assms True l
        by (auto simp: initFd_def Let_def split: prod.splits option.splits)
      then show ?thesis using s1 lines_frame[OF l] lines_no_writes[OF l]
        by (auto intro: no_writes_trans)
    qed
  qed
qed

lemma createLogFile_frame:
  assumes "createLogFile w os = (a, os1)"
  shows "no_writes os os1 \<and> stderr os1 = stderr os \<and> faults os1 = faults os
     \<and> next_fd os \<le> next_fd os1"
  using assms
  by (auto simp: createLogFile_def os_OpenFile_def os_Chmod_def called_def no_writes_def writes_def
           split: sum.splits option.splits prod.splits if_splits)

lemma startLogger_frame:
  assumes "startLogger w os = (e, w', os')"
  shows "no_writes os os' \<and> stderr os' = stderr os \<and> faults os' = faults os
     \<and> next_fd os \<le> next_fd os'
     \<and> Filename w' = Filename w \<and> MaxLines w' = MaxLines w
     \<and> MaxSize w' = MaxSize w \<and> Daily w' = Daily w \<and> Rotate w' = Rotate w
     \<and> Level w' = Level w \<and> Perm w' = Perm w \<and> RotatePerm w' = RotatePerm w
     \<and> fileNameOnly w' = fileNameOnly w \<and> suffix w' = suffix w"
proof (cases "createLogFile w os")
  case (Pair a os1)
  note c = createLogFile_frame[OF Pair]
  show ?thesis
  proof (cases a)
    case (Inl x)
    then show ?thesis using Pair assms c by (auto simp: startLogger_def)
  next
    case (Inr fd)
    let ?os2 = "if fileWriter w \<noteq> None then snd (file_Close (fileWriter w) os1) else os1"
    have i: "initFd (w\<lparr>fileWriter := Some fd\<rparr>) ?os2 = (e, w', os')"
      using assms Pair Inr by (simp add: startLogger_def)
    obtain e2 os2' where cl: "file_Close (fileWriter w) os1 = (e2, os2')" by (metis prod.exhaust)
    have o2: "no_writes os1 ?os2 \<and> stderr ?os2 = stderr os1 \<and> faults ?os2 = faults os1
       \<and> next_fd ?os2 = next_fd os1"
      using file_Close_frame[OF cl] cl by auto
    show ?thesis using initFd_frame[OF i] o2 c
      by (auto intro: no_writes_trans)
  qed
qed

lemma startLogger_next_fd:
  assumes "startLogger w os = (None, w', os')"
  shows "next_fd os < next_fd os'"
proof (cases "createLogFile w os")
  case (Pair a os1)
  show ?thesis
  proof (cases a)
    case (Inl x)
    then show ?thesis using Pair assms by (auto simp: startLogger_def)
  next
    case (Inr fd)
    note c = createLogFile_ok[OF Pair[unfolded Inr]]
    let ?os2 = "if fileWriter w \<noteq> None then snd (file_Close (fileWriter w) os1) else os1"
    have i: "initFd (w\<lparr>fileWriter := Some fd\<rparr>) ?os2 = (None, w', os')"
      using assms Pair Inr by (simp add: startLogger_def)
    obtain e2 os2' where cl: "file_Close (fileWriter w) os1 = (e2, os2')" by (metis prod.exhaust)
    have "next_fd ?os2 = next_fd os1" using file_Close_frame[OF cl] cl by auto
    then show ?thesis using initFd_frame[OF i] c by auto
  qed
qed

lemma startLogger_trace:
  assumes "ParseInt8 (Perm w) = Inr perm" "startLogger w os = (e, w', os')"
  shows "\<exists>rest. trace os' = trace os @ SOpenFile (Filename w) (FileMode perm) # rest"
proof (cases "createLogFile w os")
  case (Pair a os1)
  have c: "\<exists>r1. trace os1 = trace os @ SOpenFile (Filename w) (FileMode perm) # r1"
    using Pair assms(1)
    by (auto simp: createLogFile_def os_OpenFile_def os_Chmod_def called_def
             split: sum.splits option.splits prod.splits if_splits)
  show ?thesis
  proof (cases a)
    case (Inl x)
    then show ?thesis using Pair assms c by (auto simp: startLogger_def)
  next
    case (Inr fd)
    let ?os2 = "if fileWriter w \<noteq> None then snd (file_Close (fileWriter w) os1) else os1"
    have i: "initFd (w\<lparr>fileWriter := Some fd\<rparr>) ?os2 = (e, w', os')"
      using assms Pair Inr by (simp add: startLogger_def)
    obtain e2 os2' where cl: "file_Close (fileWriter w) os1 = (e2, os2')" by (metis prod.exhaust)
    have "no_writes os1 ?os2" using file_Close_frame[OF cl] cl by auto
    then have "prefix (trace os1) (trace os')" using initFd_frame[OF i]
      by (auto simp: no_writes_def)
    then show ?thesis using c by (auto simp: prefix_def)
  qed
qed

lemma restart_logger_result:
  assumes "restart_logger err w os = (e, w', os')"
  shows "\<exists>serr. startLogger w os = (serr, w', os')
     \<and> e = (case serr of
              Some x \<Rightarrow> Some (Errorf (''Rotate StartLogger: '' @ error_string x @ [newline]))
            | None \<Rightarrow> map_option (\<lambda>x. Errorf (''Rotate: '' @ error_string x @ [newline])) err)"
  using assms
  by (auto simp: restart_logger_def split: prod.splits option.splits)

lemma doRotate_returns:
  assumes "doRotate w t os = Returns (e, w', os')"
  shows "(\<exists>x. ParseInt8 (RotatePerm w) = Inl x \<and> e = Some x \<and> w' = w \<and> os' = os)
      \<or> (\<exists>rp err os3. ParseInt8 (RotatePerm w) = Inr rp
            \<and> restart_logger err w os3 = (e, w', os')
            \<and> next_fd os3 = next_fd os \<and> stderr os3 = stderr os
            \<and> faults os3 = faults os \<and> no_writes os os3)"
proof (cases "ParseInt8 (RotatePerm w)")
  case (Inl x)
  then show ?thesis using assms by (simp add: doRotate_def)
next
  case (Inr rp)
  obtain e1 os1 where L: "os_Lstat (Filename w) os = (e1, os1)" by (metis prod.exhaust)
  note l = os_Lstat_frame[OF L]
  show ?thesis
  proof (cases e1)
    case (Some x)
    then have "restart_logger (Some x) w os1 = (e, w', os')"
      using assms Inr L by (simp add: doRotate_def)
    then show ?thesis using Inr l by (auto simp: only_traced_def)
  next
    case None
    obtain f e2 os2 where F: "find_name w t os1 = (f, e2, os2)" by (metis prod_cases3)
    note f = find_name_frame[OF F]
    obtain y where e2: "e2 = Some y" using assms Inr L None F
      by (cases e2) (auto simp: doRotate_def)
    obtain e3 os3 where C: "file_Close (fileWriter w) os2 = (e3, os3)" by (metis prod.exhaust)
    note c = file_Close_frame[OF C]
    obtain e4 os4 where R: "rename_step w f rp os3 = (e4, os4)" by (metis prod.exhaust)
    note r = rename_step_frame[OF R]
    have "restart_logger e4 w os4 = (e, w', os')"
      using assms Inr L None F e2 C R by (simp add: doRotate_def)
    moreover have "no_writes os os4" using l f c r by (blast intro: no_writes_trans)
    moreover have "next_fd os4 = next_fd os \<and> stderr os4 = stderr os \<and> faults os4 = faults os"
      using l f c r by (simp add: only_traced_def)
    ultimately show ?thesis using Inr by blast
  qed
qed




lemma write_line_open_handle:
  assumes "fileWriter w = Some fd" "fdt os fd = Some d"
  shows "fst (write_line w line os) = fault os"
  using assms by (auto simp: write_line_def file_Write_def split: option.splits)

lemma startLogger_exact:
  assumes S: "startLogger w os = (None, w', os')" and H: "handle_ok w os"
  shows "counters_exact w' os' \<and> (MaxLines w \<le> 0 \<longrightarrow> maxLinesCurLines w' = 0)
     \<and> (\<exists>fd d. fileWriter w' = Some fd \<and> fdt os' fd = Some d \<and> dir os' (Filename w) = Some (ino d))"
proof -
  have H': "\<forall>fd0. fileWriter w = Some fd0 \<longrightarrow> fd0 < next_fd os"
    using H by (auto simp: handle_ok_def)
  from startLogger_ok[OF S H'] obtain d where D:
    "fileWriter w' = Some (next_fd os)" "fdt os' (next_fd os) = Some d"
    "dir os' (Filename w) = Some (ino d)"
    "w' = w\<lparr>fileWriter := Some (next_fd os),
                maxSizeCurSize := int (length (content (inodes os' (ino d)))),
                dailyOpenTime := now os, dailyOpenDate := int (day (now os)),
                maxLinesCurLines :=
                   (if length (content (inodes os' (ino d))) > 0 \<and> MaxLines w > 0
                    then count_newlines (content (inodes os' (ino d))) else 0)\<rparr>"
    by blast
  have sz: "maxSizeCurSize w' = int (length (content (inodes os' (ino d))))"
    by (subst D(4)) simp
  have ln: "maxLinesCurLines w' = (if length (content (inodes os' (ino d))) > 0 \<and> MaxLines w > 0
                    then count_newlines (content (inodes os' (ino d))) else 0)"
    by (subst D(4)) simp
  have ml: "MaxLines w' = MaxLines w" by (subst D(4)) simp
  have "handle_ok w' os'" using D(1) startLogger_next_fd[OF S] by (simp add: handle_ok_def)
  moreover have "size_counter_exact w' os'" using D(1,2) sz
    by (simp add: size_counter_exact_def open_file_def)
  moreover have "MaxLines w' \<le> 0 \<or> line_counter_exact w' os'" using D(1,2) ln ml
    by (auto simp: line_counter_exact_def open_file_def count_newlines_def)
  ultimately show ?thesis using ln D(1,2,3) by (auto simp: counters_exact_def)
qed

lemma replicate_numeral: "replicate (numeral k) x = x # replicate (pred_numeral k) x"
  by (simp add: numeral_eq_Suc)

lemmas eval_defs = replicate_numeral WriteMsg_def rotate_check_def needRotate_def doRotate_def find_name_def
  rename_step_def restart_logger_def startLogger_def createLogFile_def initFd_def lines_def
  write_line_def log_line_def formatTimeHeader_def format_datetime_def format_date_def pad_def
  itoa.simps digit_def numbered_name_def dated_name_def
  os_Lstat_def os_OpenFile_def os_Open_def os_Chmod_def os_Rename_def file_Close_def
  file_Stat_def file_Write_def file_Read_def fault_def called_def eprint_def quoted_def
  ParseInt8_def parse_unsigned_def octal_digit_def FileMode_def newline_def count_newlines_def
  probe.simps lines_loop.simps ENOENT_def ErrClosed_def ErrInvalid_def
  example_os_def example_writer_def example_line_writer_def example_time_def
  rename_refused_os_def fresh_writer_def stat_fails_os_def open_file_def Let_def
  handle_ok_def






lemma rotate_check_returns:
  assumes "rotate_check w t line d os = Returns (w1, os1)"
  shows "(w1 = w \<and> os1 = os \<and> \<not> (Rotate w \<and> needRotate w (int (length line)) d))
     \<or> (Rotate w \<and> needRotate w (int (length line)) d
         \<and> (\<exists>e os2. doRotate w t os = Returns (e, w1, os2)
               \<and> os1 = (case e of None \<Rightarrow> os2
                         | Some x \<Rightarrow> eprint (''FileLogWriter('' @ quoted (Filename w1) @ ''): ''
                                                 @ error_string x @ [newline]) os2)))"
  using assms
  by (auto simp: rotate_check_def split: if_splits outcome.splits option.splits prod.splits)



lemma no_writes_eq: "no_writes os os' \<Longrightarrow> writes (trace os') = writes (trace os)"
  by (auto simp: no_writes_def prefix_def)

lemma startLogger_writes: "startLogger w os = (e, w', os') \<Longrightarrow> writes (trace os') = writes (trace os)"
  using startLogger_frame no_writes_eq by blast

lemma doRotate_writes:
  assumes "doRotate w t os = Returns (e, w', os')"
  shows "writes (trace os') = writes (trace os)"
  using doRotate_returns[OF assms]
  by (auto dest!: restart_logger_result startLogger_writes no_writes_eq)

lemma rotate_check_writes:
  assumes "rotate_check w t line d os = Returns (w1, os1)"
  shows "writes (trace os1) = writes (trace os)"
  using rotate_check_returns[OF assms]
  by (auto simp: eprint_def split: option.splits dest!: doRotate_writes)

lemma write_line_writes:
  assumes "write_line w line os = (e, w', os')"
  shows "\<exists>ys. writes (trace os') = writes (trace os) @ ys \<and> (ys = [] \<or> ys = [line])"
  using assms
  by (auto simp: write_line_def file_Write_def called_def writes_def
           split: option.splits prod.splits)

lemma WriteMsg_writes:
  assumes "WriteMsg w t msg lvl os = Returns (e, w', os')"
  shows "\<exists>ys. writes (trace os') = writes (trace os) @ ys \<and> (ys = [] \<or> ys = [log_line t msg])"
proof (cases "lvl > Level w")
  case True
  then show ?thesis using assms by (simp add: WriteMsg_def)
next
  case False
  then obtain w1 os1 where
    RC: "rotate_check w t (log_line t msg) (snd (formatTimeHeader t)) os = Returns (w1, os1)"
    and WL: "write_line w1 (log_line t msg) os1 = (e, w', os')"
    using assms by (auto simp: WriteMsg_def split: outcome.splits prod.splits)
  show ?thesis using rotate_check_writes[OF RC] write_line_writes[OF WL] by simp
qed

lemma writeToLoggers_writes:
  assumes "writeToLoggers bl t msg lvl os = Returns (bl', os')"
  shows "(\<exists>ys. writes (trace os') = writes (trace os) @ ys \<and> (ys = [] \<or> ys = [log_line t msg]))
     \<and> msgChan bl' = msgChan bl \<and> asynchronous bl' = asynchronous bl
     \<and> signalChan bl' = signalChan bl \<and> wg bl' = wg bl"
proof -
  obtain nl where N: "outputs bl = Some nl" using assms
    by (cases "outputs bl") (auto simp: writeToLoggers_def)
  obtain e w1 os1 where W: "WriteMsg (Logger nl) t msg lvl os = Returns (e, w1, os1)"
    using assms N by (auto simp: writeToLoggers_def split: outcome.splits)
  have "bl' = bl\<lparr>outputs := Some (nl\<lparr>Logger := w1\<rparr>)\<rparr>"
    and "trace os' = trace os1"
    using assms N W by (auto simp: writeToLoggers_def eprint_def split: option.splits)
  then show ?thesis using WriteMsg_writes[OF W] by simp
qed

lemma setLogger_default:
  "setLogger bl a Inr os = (Some (Errorf ''must have filename''), bl,
      eprint (''logs.SetLogger:'' @ ''must have filename'' @ [newline]) os)"
  by (simp add: setLogger_def Init_def newFileWriter_def)

lemma WriteMsg_async:
  assumes A: "asynchronous bl" and W: "WLogger_WriteMsg rt bl lvl msg v os = Returns (e, bl', os')"
  shows "e = None \<and> trace os' = trace os \<and> asynchronous bl' \<and> (\<exists>m. queue bl' = queue bl @ [m])"
proof -
  have D: "\<And>l m t. dispatch bl l m t os1 = Returns (e, bl', os') \<Longrightarrow>
     e = None \<and> os' = os1 \<and> asynchronous bl' \<and> (\<exists>m. queue bl' = queue bl @ [m])" for os1
    using A
    by (auto simp: dispatch_def chan_send_def queue_def split: option.splits outcome.splits if_splits)
  show ?thesis
  proof (cases "init bl")
    case True
    then show ?thesis using W D[of _ _ _ os]
      by (auto simp: WLogger_WriteMsg_def split: if_splits)
  next
    case False
    let ?os1 = "eprint (''logs.SetLogger:'' @ ''must have filename'' @ [newline]) os"
    have "trace ?os1 = trace os" by (simp add: eprint_def)
    then show ?thesis using False W D[of _ _ _ ?os1]
      by (auto simp: WLogger_WriteMsg_def setLogger_default split: if_splits)
  qed
qed

lemmas engine_defs = WLogger_WriteMsg_def dispatch_def writeToLoggers_def render_msg_def
  chan_send_def chan_close_def make_chan_def levelPrefix_def levelLoggerImpl_def
  AdapterFile_def NewLogger_def Async_def take_and_write_def wg_Done_def send_signal_def
  flush_outputs_def destroy_outputs_def Close_sync_def Flush_def Destroy_def file_Sync_def
  queue_def line_of_def example_goenv_def sync_engine_def async_engine_def
  sync_system_def async_system_def write_refused_os_def setLogger_def Init_def
  newFileWriter_def engine_closed_def leveled_def

lemma take_and_write_order:
  assumes A: "asynchronous (engine s)" and I: "in_order s"
    and T: "take_and_write s = Returns s'"
  shows "asynchronous (engine s') \<and> in_order s' \<and> sent s' = sent s"
proof -
  obtain c bm rest where c: "msgChan (engine s) = Some c" "buf c = bm # rest"
    using T by (auto simp: take_and_write_def split: option.splits list.splits if_splits)
  let ?bl = "(engine s)\<lparr>msgChan := Some (c\<lparr>buf := rest\<rparr>)\<rparr>"
  obtain bl' os' where W: "writeToLoggers ?bl (lm_when bm) (lm_msg bm) (lm_level bm) (world s)
      = Returns (bl', os')"
    and s': "s' = s\<lparr>engine := bl', world := os', handed := handed s @ [bm]\<rparr>"
    using T c by (auto simp: take_and_write_def split: outcome.splits)
  from writeToLoggers_writes[OF W] obtain ys where
    ys: "writes (trace os') = writes (trace (world s)) @ ys" "ys = [] \<or> ys = [line_of bm]"
    and m: "msgChan bl' = Some (c\<lparr>buf := rest\<rparr>)" and a: "asynchronous bl' = asynchronous (engine s)"
    by (auto simp: line_of_def)
  have q: "queue (engine s) = bm # rest" "queue bl' = rest" using c m by (simp_all add: queue_def)
  have "subseq (writes (trace (world s)) @ ys) (map line_of (handed s) @ [line_of bm])"
    using I ys(2) by (auto simp: in_order_def intro: list_emb_append_mono)
  then show ?thesis using I A a ys(1) q by (simp add: s' in_order_def)
qed

lemma flush_outputs_frame:
  "flush_outputs bl os = Returns (bl', os') \<Longrightarrow> bl' = bl \<and> writes (trace os') = writes (trace os)"
  by (auto simp: flush_outputs_def Flush_def file_Sync_def called_def writes_def
           split: option.splits)

lemma destroy_outputs_frame:
  "destroy_outputs bl os = Returns (bl', os') \<Longrightarrow>
   bl' = bl\<lparr>outputs := None\<rparr> \<and> writes (trace os') = writes (trace os)"
  by (auto simp: destroy_outputs_def Destroy_def file_Close_def called_def writes_def
           split: option.splits)

lemma step_order:
  assumes A: "asynchronous (engine s)" and I: "in_order s"
    and S: "step rt e s = Returns s'"
  shows "asynchronous (engine s') \<and> in_order s'
     \<and> length (sent s') = length (sent s) + (if is_submit e then 1 else 0)"
proof (cases e)
  case (Submit lvl msg v)
  then obtain er bl' os' where
    W: "WLogger_WriteMsg rt (engine s) lvl msg v (world s) = Returns (er, bl', os')"
    and s': "s' = s\<lparr>engine := bl', world := os',
                     sent := sent s @ drop (length (queue (engine s))) (queue bl')\<rparr>"
    using S by (auto split: outcome.splits)
  from WriteMsg_async[OF A W] obtain m where
    "trace os' = trace (world s)" "asynchronous bl'" "queue bl' = queue (engine s) @ [m]"
    by blast
  then show ?thesis using I Submit by (simp add: s' in_order_def)
next
  case Receive
  then have "take_and_write s = Returns s'" using S by (auto split: if_splits)
  from take_and_write_order[OF A I this] show ?thesis using Receive by simp
next
  case Signal
  then show ?thesis using S A I
    by (auto simp: in_order_def queue_def split: if_splits list.splits)
next
  case DrainOne
  then have "take_and_write s = Returns s'" using S
    by (auto split: if_splits consumer_state.splits)
  from take_and_write_order[OF A I this] show ?thesis using DrainOne by simp
next
  case FlushDone
  then show ?thesis using S A I
    by (auto simp: in_order_def queue_def wg_Done_def
             split: if_splits consumer_state.splits outcome.splits
             dest!: flush_outputs_frame destroy_outputs_frame)
next
  case CallFlush
  then show ?thesis using S A I
    by (auto simp: in_order_def queue_def send_signal_def chan_send_def
             split: if_splits outcome.splits)
next
  case FlushReturn
  then show ?thesis using S A I
    by (auto simp: in_order_def queue_def split: if_splits)
next
  case CallClose
  then show ?thesis using S A I
    by (auto simp: in_order_def queue_def send_signal_def chan_send_def
             split: if_splits outcome.splits)
next
  case CloseReturn
  then show ?thesis using S A I
    by (auto simp: in_order_def queue_def chan_close_def
             split: if_splits outcome.splits option.splits)
qed

lemma run_order:
  "asynchronous (engine s) \<Longrightarrow> in_order s \<Longrightarrow> run rt evs s = Returns s' \<Longrightarrow>
   asynchronous (engine s') \<and> in_order s'
   \<and> length (sent s') = length (sent s) + length (filter is_submit evs)"
proof (induction evs arbitrary: s)
  case Nil
  then show ?case by simp
next
  case (Cons e es)
  then obtain s1 where 1: "step rt e s = Returns s1" and 2: "run rt es s1 = Returns s'"
    by (auto split: outcome.splits)
  from step_order[OF Cons.prems(1,2) 1] Cons.IH[OF _ _ 2] show ?case by auto
qed

(*CLAIMS*)
section \<open>Properties of the rotation test\<close>

text \<open>
  C1. The claim: \<open>needsRotation(pendingBytes, today)\<close> is true exactly when the line
  count has reached \<open>maxLines\<close> (when positive), or the byte count plus the pending bytes
  has reached \<open>maxSize\<close> (when positive), or daily rotation is on, the day differs from
  the day the file was opened and a line has been written. \<open>needRotate\<close> never reads its
  \<open>size\<close> argument: with 4 bytes in the file, a limit of 10 and 10 bytes pending, the
  size threshold of the claim is exceeded and the function answers false.
\<close>

theorem needRotate_ignores_pending_bytes:
  "MaxSize example_writer > 0
   \<and> maxSizeCurSize example_writer + 10 \<ge> MaxSize example_writer
   \<and> needRotate example_writer 10 5 = False"
  by (simp add: needRotate_def example_writer_def)

section \<open>Properties of the write path\<close>

text \<open>
  C10. A record whose level is numerically greater than the writer's \<open>Level\<close> makes
  \<open>WriteMsg\<close> return nil at once: the writer (with both counters) and the whole
  operating-system state (every file, the call trace, stderr) are what they were.
\<close>

theorem WriteMsg_discards_less_severe:
  "lvl > Level w \<Longrightarrow> WriteMsg w when msg lvl os = Returns (None, w, os)"
  by (simp add: WriteMsg_def)

theorem WriteMsg_discards_less_severe_witness:
  "(7::int) > Level example_writer
   \<and> WriteMsg example_writer example_time ''hello'' 7 example_os
       = Returns (None, example_writer, example_os)"
  using WriteMsg_discards_less_severe [of example_writer 7 example_time "''hello''" example_os]
  by (simp add: example_writer_def)

section \<open>Properties of opening the file\<close>

text \<open>
  C7. Opening the writer on a file that already holds \<open>K\<close> newline-terminated lines,
  with line rotation enabled, seeds the line counter with \<open>K\<close> and the byte counter
  with the size of the file. The count comes from \<open>lines\<close>, one pass over the file in
  reads of 32768 bytes. The environment makes no call fail, \<open>Perm\<close> is an octal
  number, and the handle the writer holds (if any) was handed out earlier.
\<close>

theorem startLogger_seeds_counters:
  assumes "\<forall>n. faults os n = None" and "ParseInt8 (Perm w) = Inr perm"
    and "\<forall>fd0. fileWriter w = Some fd0 \<longrightarrow> fd0 < next_fd os"
    and "dir os (Filename w) = Some i" and "content (inodes os i) = file_of_lines ls"
    and "\<forall>l\<in>set ls. newline \<notin> set l" and "MaxLines w > 0"
  shows "\<exists>w' os'. startLogger w os = (None, w', os')
           \<and> maxLinesCurLines w' = int (length ls)
           \<and> maxSizeCurSize w' = int (length (file_of_lines ls))"
proof -
  obtain w' os' where S: "startLogger w os = (None, w', os')"
    using startLogger_nofault[OF assms(1,2,3)] by (metis fst_conv prod.exhaust)
  from startLogger_ok[OF S assms(3)] obtain d where D:
    "fileWriter w' = Some (next_fd os) \<and> fdt os' (next_fd os) = Some d
     \<and> dir os' (Filename w) = Some (ino d)
     \<and> w' = w\<lparr>fileWriter := Some (next_fd os),
                maxSizeCurSize := int (length (content (inodes os' (ino d)))),
                dailyOpenTime := now os, dailyOpenDate := int (day (now os)),
                maxLinesCurLines :=
                   (if length (content (inodes os' (ino d))) > 0 \<and> MaxLines w > 0
                    then count_newlines (content (inodes os' (ino d))) else 0)\<rparr>
     \<and> (\<forall>i. dir os (Filename w) = Some i \<longrightarrow> ino d = i)
     \<and> (dir os (Filename w) = None \<longrightarrow> ino d = next_ino os \<and> content (inodes os' (ino d)) = [])
     \<and> (\<forall>j. j \<noteq> next_ino os \<or> dir os (Filename w) \<noteq> None
          \<longrightarrow> content (inodes os' j) = content (inodes os j))
     \<and> (\<forall>p. p \<noteq> Filename w \<longrightarrow> dir os' p = dir os p)
     \<and> faults os' = faults os \<and> stderr os' = stderr os" ..
  have d: "ino d = i" using D assms(4) by simp
  have d1: "content (inodes os' i) = content (inodes os i)" using D assms(4) by simp
  have w': "w' = w\<lparr>fileWriter := Some (next_fd os),
                maxSizeCurSize := int (length (content (inodes os' (ino d)))),
                dailyOpenTime := now os, dailyOpenDate := int (day (now os)),
                maxLinesCurLines :=
                   (if length (content (inodes os' (ino d))) > 0 \<and> MaxLines w > 0
                    then count_newlines (content (inodes os' (ino d))) else 0)\<rparr>"
    using D by simp
  have d2: "maxSizeCurSize w' = int (length (content (inodes os' (ino d))))"
    by (subst w') simp
  have d3: "maxLinesCurLines w' = (if length (content (inodes os' (ino d))) > 0 \<and> MaxLines w > 0
                    then count_newlines (content (inodes os' (ino d))) else 0)"
    by (subst w') simp
  have "count_newlines (file_of_lines ls) = int (length ls)"
    by (rule count_newlines_file_of_lines) (rule assms(6))
  moreover have "length (file_of_lines ls) = 0 \<Longrightarrow> ls = []"
    by (cases ls) (simp_all add: file_of_lines_def)
  ultimately show ?thesis using S d d1 d2 d3 assms(5,7) by auto
qed

theorem startLogger_seeds_counters_witness:
  "dir example_os (Filename (example_writer\<lparr>MaxLines := 3\<rparr>)) = Some 0
   \<and> content (inodes example_os 0) = file_of_lines [''a'', ''b'']
   \<and> MaxLines (example_writer\<lparr>MaxLines := 3\<rparr>) > 0
   \<and> (\<exists>w' os'. startLogger (example_writer\<lparr>MaxLines := 3\<rparr>) example_os = (None, w', os')
           \<and> maxLinesCurLines w' = int (length [''a'', ''b''])
           \<and> maxSizeCurSize w' = int (length (file_of_lines [''a'', ''b''])))"
proof -
  have h1: "\<forall>n. faults example_os n = None" by (simp add: example_os_def)
  have h2: "ParseInt8 (Perm (example_writer\<lparr>MaxLines := 3\<rparr>)) = Inr 438"
    by (simp add: example_writer_def ParseInt8_def parse_unsigned_def octal_digit_def)
  have h3: "\<forall>fd0. fileWriter (example_writer\<lparr>MaxLines := 3\<rparr>) = Some fd0 \<longrightarrow> fd0 < next_fd example_os"
    by (simp add: example_writer_def example_os_def)
  have h4: "dir example_os (Filename (example_writer\<lparr>MaxLines := 3\<rparr>)) = Some 0"
    by (simp add: example_writer_def example_os_def)
  have h5: "content (inodes example_os 0) = file_of_lines [''a'', ''b'']"
    by (simp add: example_os_def file_of_lines_def)
  have h6: "\<forall>l\<in>set [''a'', ''b'']. newline \<notin> set l" by (simp add: newline_def)
  have h7: "MaxLines (example_writer\<lparr>MaxLines := 3\<rparr>) > 0" by simp
  from startLogger_seeds_counters[OF h1 h2 h3 h4 h5 h6 h7] h1 h2 h3 h4 h5 h6 h7
  show ?thesis by blast
qed

text \<open>
  C4. The claim: the rotated file is named \<open>stem.YYYY-MM-DD.NNN suffix\<close> with the
  smallest unused number from 001 to 999 (after the plain dated name when only daily
  rotation is configured), and when all 999 names are taken the rotation returns a
  reported error. With \<open>app.2024-03-05.001.log\<close> to \<open>app.2024-03-05.999.log\<close>
  all present, the loop of \<open>doRotate\<close> ends with \<open>err = nil\<close>; the statement that
  builds the error to return calls \<open>err.Error()\<close> on that nil value, and the rotation
  panics instead of returning.
\<close>

theorem doRotate_panics_when_all_numbers_taken:
  "doRotate example_line_writer example_time crowded_os = Panic nil_dereference"
proof -
  let ?os1 = "called (SLstat ''app.log'') crowded_os"
  have L: "os_Lstat (Filename example_line_writer) crowded_os = (None, ?os1)"
    by (simp add: os_Lstat_def fault_def crowded_os_def example_os_def
          example_line_writer_def example_writer_def)
  have "fst (snd (probe example_line_writer ''2024-03-05'' 1 [] None ?os1)) = None"
    by (rule probe_all_taken)
       (auto simp: called_def crowded_os_def example_os_def)
  then have "fst (snd (find_name example_line_writer example_time ?os1)) = None"
    by (simp add: find_name_def format_date_example example_line_writer_def example_writer_def)
  moreover have "ParseInt8 (RotatePerm example_line_writer) = Inr 292"
    by (simp add: example_line_writer_def example_writer_def ParseInt8_0444)
  ultimately show ?thesis using L by (rule doRotate_panic[rotated 2])
qed

text \<open>
  C2. In every rotation that has found its target name and closed the handle, the
  restart runs whatever the rename and chmod returned: \<open>startLogger\<close> is called on the
  state they leave, its first call is the \<open>OpenFile\<close> of the original path, and the
  rotation returns an error exactly when the rename step or the restart failed. When
  the restart succeeds the writer holds an open descriptor on the file at the original
  path, with both counters set from it, and a write on it fails only if the environment
  fails that very call.
\<close>

theorem doRotate_always_restarts:
  assumes RP: "ParseInt8 (RotatePerm w) = Inr rp" and P: "ParseInt8 (Perm w) = Inr perm"
    and L: "os_Lstat (Filename w) os = (None, os1)"
    and F: "find_name w logTime os1 = (fName, Some e, os2)"
    and R: "rename_step w fName rp (snd (file_Close (fileWriter w) os2)) = (rerr, os3)"
    and H: "handle_ok w os"
  shows "\<exists>serr w' os' rot rest.
      startLogger w os3 = (serr, w', os')
    \<and> trace os' = trace os3 @ SOpenFile (Filename w) (FileMode perm) # rest
    \<and> doRotate w logTime os = Returns (rot, w', os')
    \<and> (rot = None \<longleftrightarrow> rerr = None \<and> serr = None)
    \<and> (serr = None \<longrightarrow>
          counters_exact w' os'
        \<and> (\<exists>fd d. fileWriter w' = Some fd \<and> fdt os' fd = Some d
               \<and> dir os' (Filename w) = Some (ino d))
        \<and> (\<forall>line. fst (write_line w' line os') = fault os'))"
proof -
  obtain serr w' os' where S: "startLogger w os3 = (serr, w', os')" by (metis prod_cases3)
  obtain rest where T: "trace os' = trace os3 @ SOpenFile (Filename w) (FileMode perm) # rest"
    using startLogger_trace[OF P S] by blast
  obtain rot where RL: "restart_logger rerr w os3 = (rot, w', os')"
    using S by (cases serr; cases rerr) (auto simp: restart_logger_def)
  have D: "doRotate w logTime os = Returns (rot, w', os')"
    using RP L F R RL by (simp add: doRotate_def)
  have rot: "rot = None \<longleftrightarrow> rerr = None \<and> serr = None"
    using RL S by (auto simp: restart_logger_def split: option.splits)
  obtain e3 os2' where C: "file_Close (fileWriter w) os2 = (e3, os2')" by (metis prod.exhaust)
  have "next_fd os3 = next_fd os"
    using os_Lstat_frame[OF L] find_name_frame[OF F] file_Close_frame[OF C]
      rename_step_frame[OF R[unfolded C snd_conv]]
    by (simp add: only_traced_def)
  then have H3: "handle_ok w os3" using H by (simp add: handle_ok_def split: option.splits)
  have "serr = None \<longrightarrow>
          counters_exact w' os'
        \<and> (\<exists>fd d. fileWriter w' = Some fd \<and> fdt os' fd = Some d
               \<and> dir os' (Filename w) = Some (ino d))
        \<and> (\<forall>line. fst (write_line w' line os') = fault os')"
  proof
    assume "serr = None"
    then have S': "startLogger w os3 = (None, w', os')" using S by simp
    from startLogger_exact[OF S' H3] obtain fd d where
      X: "counters_exact w' os'" "fileWriter w' = Some fd" "fdt os' fd = Some d"
         "dir os' (Filename w) = Some (ino d)"
      by blast
    then show "counters_exact w' os'
        \<and> (\<exists>fd d. fileWriter w' = Some fd \<and> fdt os' fd = Some d
               \<and> dir os' (Filename w) = Some (ino d))
        \<and> (\<forall>line. fst (write_line w' line os') = fault os')"
      using write_line_open_handle[OF X(2,3)] by blast
  qed
  then show ?thesis using S T D rot by blast
qed

theorem doRotate_always_restarts_witness:
  "ParseInt8 (RotatePerm example_line_writer) = Inr 292
   \<and> ParseInt8 (Perm example_line_writer) = Inr 438
   \<and> handle_ok example_line_writer rename_refused_os
   \<and> fst (rename_step example_line_writer ''app.2024-03-05.001.log'' 292
        (snd (file_Close (fileWriter example_line_writer)
          (snd (snd (find_name example_line_writer example_time
             (snd (os_Lstat (Filename example_line_writer) rename_refused_os))))))))
       = Some (OSError ''rename: permission denied'')
   \<and> (\<exists>rot w' os'. doRotate example_line_writer example_time rename_refused_os
                        = Returns (Some rot, w', os')
          \<and> counters_exact w' os' \<and> fst (write_line w' ''x'' os') = fault os')"
proof -
  let ?w = example_line_writer and ?os = rename_refused_os
  let ?os1 = "snd (os_Lstat (Filename ?w) ?os)"
  let ?os2 = "snd (snd (find_name ?w example_time ?os1))"
  let ?f = "''app.2024-03-05.001.log''"
  let ?os2' = "snd (file_Close (fileWriter ?w) ?os2)"
  let ?os3 = "snd (rename_step ?w ?f 292 ?os2')"
  have RP: "ParseInt8 (RotatePerm ?w) = Inr 292" by (simp add: eval_defs)
  have P: "ParseInt8 (Perm ?w) = Inr 438" by (simp add: eval_defs)
  have H: "handle_ok ?w ?os" by (simp add: eval_defs)
  have L: "os_Lstat (Filename ?w) ?os = (None, ?os1)" by (simp add: eval_defs)
  have F: "find_name ?w example_time ?os1 = (?f, Some (ENOENT ''lstat'' ?f), ?os2)"
    by (simp add: eval_defs)
  have R: "rename_step ?w ?f 292 ?os2' = (Some (OSError ''rename: permission denied''), ?os3)"
    by (simp add: eval_defs)
  have R': "fst (rename_step ?w ?f 292 ?os2') = Some (OSError ''rename: permission denied'')"
    by (simp add: eval_defs)
  have S: "fst (startLogger ?w ?os3) = None" by (simp add: eval_defs)
  from doRotate_always_restarts[OF RP P L F R H] obtain serr w' os' rot rest where
    X: "startLogger ?w ?os3 = (serr, w', os')"
       "doRotate ?w example_time ?os = Returns (rot, w', os')"
       "rot = None \<longleftrightarrow> Some (OSError ''rename: permission denied'') = None \<and> serr = None"
       "serr = None \<longrightarrow> counters_exact w' os'
           \<and> (\<exists>fd d. fileWriter w' = Some fd \<and> fdt os' fd = Some d
               \<and> dir os' (Filename ?w) = Some (ino d))
           \<and> (\<forall>line. fst (write_line w' line os') = fault os')"
    by blast
  have "serr = None" using S X(1) by simp
  moreover obtain r where "rot = Some r" using X(3) by (cases rot) auto
  ultimately show ?thesis using RP P H R' X(2,4) by blast
qed







text \<open>
  C3. In asynchronous mode, along every schedule of producers, consumer and
  \<open>Flush\<close>/\<open>Close\<close> caller that starts with an empty queue: one record is sent per
  submission; the records the consumer has handed to the writer, followed by the
  records still queued, are the records sent, in the order they were sent; and the
  lines appended to the log files are, in that same order, lines of handed records
  (a record filtered by level or refused by the file system leaves no line).
\<close>

theorem async_delivery_is_fifo:
  assumes "asynchronous (engine s)" and "sent s = []" and "handed s = []"
    and "queue (engine s) = []" and "writes (trace (world s)) = []"
    and "run rt evs s = Returns s'"
  shows "length (sent s') = length (filter is_submit evs)
     \<and> sent s' = handed s' @ queue (engine s')
     \<and> subseq (writes (trace (world s'))) (map line_of (handed s'))"
proof -
  have "in_order s" using assms(2-5) by (simp add: in_order_def)
  from run_order[OF assms(1) this assms(6)] assms(2) show ?thesis
    by (auto simp: in_order_def)
qed

theorem async_delivery_is_fifo_witness:
  "asynchronous (engine async_system) \<and> sent async_system = [] \<and> handed async_system = []
   \<and> queue (engine async_system) = [] \<and> writes (trace (world async_system)) = []
   \<and> (\<exists>s'. run example_goenv [Submit 3 ''one'' [], Submit 4 ''two'' [], Receive, Receive]
                async_system = Returns s'
          \<and> length (sent s') = 2
          \<and> sent s' = handed s' @ queue (engine s')
          \<and> subseq (writes (trace (world s'))) (map line_of (handed s'))
          \<and> writes (trace (world s'))
              = [log_line example_time ''[E] one'', log_line example_time ''[W] two''])"
proof -
  let ?evs = "[Submit 3 ''one'' [], Submit 4 ''two'' [], Receive, Receive] :: unit event list"
  have 1: "asynchronous (engine async_system)" by (simp add: engine_defs)
  have 2: "sent async_system = []" "handed async_system = []" by (simp_all add: engine_defs)
  have 3: "queue (engine async_system) = []" by (simp add: engine_defs)
  have 4: "writes (trace (world async_system)) = []" by (simp add: engine_defs example_os_def)
  have "\<exists>s'. run example_goenv ?evs async_system = Returns s'
          \<and> writes (trace (world s'))
              = [log_line example_time ''[E] one'', log_line example_time ''[W] two'']"
    by (simp add: engine_defs eval_defs writes_def)
  then obtain s' where R: "run example_goenv ?evs async_system = Returns s'"
    and W: "writes (trace (world s'))
              = [log_line example_time ''[E] one'', log_line example_time ''[W] two'']"
    by blast
  from async_delivery_is_fifo[OF 1 2 3 4 R] 1 2 3 4 R W show ?thesis by auto
qed

end
